theory Spec2Isabelle
  imports Complex_Main "HOL-Library.AList"
begin

section \<open>Errors and numeric helpers\<close>

text \<open>
  Every \<^verbatim>\<open>raise\<close> of the modelled scripts, and every exception of a library call
  that the properties below depend on, is a value of this type. Floating-point arrays are
  idealised as lists of reals.
\<close>

datatype error =
    ImageNotFound
  | CheckpointNotFound
  | QueryDimMismatch nat nat
  | TopkOutOfRange int
  | NoTrainEmbeddings
  | EmptySampler
  | BadBatchSize
  | BadNumWorkers
  | NegativeDimension
  | InvalidLearningRate
  | ZeroDivisionError
  | KeyError
  | IndexError
  | SampleLargerThanPopulation

type_synonym vector = "real list"

definition l2norm :: "vector \<Rightarrow> real" where
  "l2norm v = sqrt (\<Sum>x\<leftarrow>v. x\<^sup>2)"

definition dot :: "vector \<Rightarrow> vector \<Rightarrow> real" where
  "dot u v = (\<Sum>(x, y)\<leftarrow>zip u v. x * y)"

text \<open>\<^verbatim>\<open>torch.nn.functional.normalize(v, dim=0)\<close>: \<^verbatim>\<open>v / max(||v||, eps)\<close> with
  \<^verbatim>\<open>eps = 1e-12\<close>.\<close>

definition F_eps :: real where
  "F_eps = 1 / 10 ^ 12"

definition F_normalize :: "vector \<Rightarrow> vector" where
  "F_normalize v = map (\<lambda>x. x / max (l2norm v) F_eps) v"

text \<open>A sort by a real key, descending and stable, as
  \<^verbatim>\<open>xs.sort(key=..., reverse=True)\<close> and \<^verbatim>\<open>sorted(xs, key=..., reverse=True)\<close> are.\<close>

fun insort_desc :: "('a \<Rightarrow> real) \<Rightarrow> 'a \<Rightarrow> 'a list \<Rightarrow> 'a list" where
  "insort_desc f x [] = [x]"
| "insort_desc f x (y # ys) = (if f y \<le> f x then x # y # ys else y # insort_desc f x ys)"

definition sort_desc :: "('a \<Rightarrow> real) \<Rightarrow> 'a list \<Rightarrow> 'a list" where
  "sort_desc f xs = foldr (insort_desc f) xs []"

text \<open>A Python slice \<^verbatim>\<open>xs[:k]\<close>: a negative \<^verbatim>\<open>k\<close> counts from the end.\<close>

definition py_slice_to :: "int \<Rightarrow> 'a list \<Rightarrow> 'a list" where
  "py_slice_to k xs = (if 0 \<le> k then take (nat k) xs else take (length xs - nat (- k)) xs)"

section \<open>The retriever (triplet\_similarity.py)\<close>

record DbEmbedding =
  desertion_no :: string
  side :: string
  vec :: vector
  image_url :: string
  up_kind_cd :: string
  kind_nm :: string
  sex_cd :: string
  age :: string
  neuter_yn :: string
  care_nm :: string
  care_tel :: string
  care_addr :: string
  notice_sdt :: string
  special_mark :: string

record DetectionResult =
  bbox :: "int \<times> int \<times> int \<times> int"
  conf :: real
  cls_id :: int

record query_bbox =
  x1 :: int
  y1 :: int
  x2 :: int
  y2 :: int
  bconf :: real

record result =
  r_desertion_no :: string
  r_side :: string
  r_similarity :: real
  r_image_url :: string
  r_up_kind_cd :: string
  r_kind_nm :: string
  r_sex_cd :: string
  r_age :: string
  r_neuter_yn :: string
  r_care_nm :: string
  r_care_tel :: string
  r_care_addr :: string
  r_notice_sdt :: string
  r_special_mark :: string

record payload =
  p_query_bbox :: query_bbox
  p_results :: "result list"

text \<open>What \<^verbatim>\<open>main\<close> reads from its surroundings: the command line, the environment
  variables, the file system (is the image a file, which head did \<^verbatim>\<open>load_head\<close>
  return), the detector's and the embedder's outputs, and the list that
  \<^verbatim>\<open>load_embeddings\<close> returned. \<^verbatim>\<open>fromisoformat\<close> stands for
  \<^verbatim>\<open>datetime.fromisoformat(s).date()\<close>, \<^verbatim>\<open>None\<close> where it raises; dates are day
  numbers. The configured dimension is a natural number: with a negative
  \<^verbatim>\<open>TRIPLET_EMBED_DIM\<close> the head cannot be built, and \<^verbatim>\<open>load_head\<close> runs before the
  query is embedded.\<close>

record env =
  image_isfile :: bool
  topk_arg :: int
  loaded_head :: "(vector \<Rightarrow> vector) option"
  detection :: DetectionResult
  embedded_query :: vector
  EMBED_DIM :: nat
  COARSE_TOPK :: int
  SEARCH_GENDER :: string
  SEARCH_LOST_DATE :: string
  SEARCH_ANIMAL_TYPE :: string
  fromisoformat :: "string \<Rightarrow> int option"
  loaded_dataset :: "DbEmbedding list"

text \<open>\<^verbatim>\<open>str.lower\<close>, \<^verbatim>\<open>str.upper\<close> and \<^verbatim>\<open>str.strip\<close> on ASCII text: the values compared
  with are ASCII words, and a character outside A-Z, a-z is left as it is.\<close>

definition lower_char :: "char \<Rightarrow> char" where
  "lower_char c =
     (case map_of (zip ''ABCDEFGHIJKLMNOPQRSTUVWXYZ'' ''abcdefghijklmnopqrstuvwxyz'') c of
        Some d \<Rightarrow> d | None \<Rightarrow> c)"

definition upper_char :: "char \<Rightarrow> char" where
  "upper_char c =
     (case map_of (zip ''abcdefghijklmnopqrstuvwxyz'' ''ABCDEFGHIJKLMNOPQRSTUVWXYZ'') c of
        Some d \<Rightarrow> d | None \<Rightarrow> c)"

definition lower :: "string \<Rightarrow> string" where
  "lower s = map lower_char s"

definition upper :: "string \<Rightarrow> string" where
  "upper s = map upper_char s"

definition is_space :: "char \<Rightarrow> bool" where
  "is_space c =
     (c \<in> set [CHR '' '', CHR 0x09, CHR 0x0A, CHR 0x0B, CHR 0x0C, CHR 0x0D,
                CHR 0x1C, CHR 0x1D, CHR 0x1E, CHR 0x1F])"

definition strip :: "string \<Rightarrow> string" where
  "strip s = rev (dropWhile is_space (rev (dropWhile is_space s)))"

text \<open>The query-dimension check of \<^verbatim>\<open>main\<close> (lines 225-232).\<close>

definition check_query_dim :: "nat \<Rightarrow> vector \<Rightarrow> error + vector" where
  "check_query_dim embed_dim query_vec =
     (if length query_vec \<noteq> embed_dim then
        (if length query_vec > embed_dim then Inr (take embed_dim query_vec)
         else Inl (QueryDimMismatch (length query_vec) embed_dim))
      else Inr query_vec)"

definition gender_filter_of :: "string \<Rightarrow> string" where
  "gender_filter_of raw =
     (let gender_filter_raw = lower raw in
      if gender_filter_raw = ''male'' then ''M''
      else if gender_filter_raw = ''female'' then ''F''
      else if gender_filter_raw \<in> set ['''', ''undefined'', ''null''] then ''''
      else '''')"

definition lost_date_of :: "(string \<Rightarrow> int option) \<Rightarrow> string \<Rightarrow> int option" where
  "lost_date_of parse raw =
     (let lost_date_str = strip raw;
          lost_date_str = (if lost_date_str \<in> set ['''', ''undefined'', ''null''] then '''' else lost_date_str)
      in if lost_date_str \<noteq> '''' then parse lost_date_str else None)"

definition animal_code_of :: "string \<Rightarrow> string" where
  "animal_code_of raw =
     (let animal_filter = lower (strip raw) in
      if animal_filter = ''dog'' then ''417000''
      else if animal_filter = ''cat'' then ''422400''
      else '''')"

text \<open>The body of the filter loop: \<^verbatim>\<open>True\<close> where the entry is appended.\<close>

definition keeps :: "(string \<Rightarrow> int option) \<Rightarrow> string \<Rightarrow> string \<Rightarrow> int option \<Rightarrow> DbEmbedding \<Rightarrow> bool" where
  "keeps parse animal_code gender_filter lost_date emb =
     (if animal_code \<noteq> '''' \<and> up_kind_cd emb \<noteq> animal_code then False
      else if gender_filter \<noteq> '''' \<and> upper (sex_cd emb) \<noteq> gender_filter then False
      else (case lost_date of
              None \<Rightarrow> True
            | Some ld \<Rightarrow>
                (if notice_sdt emb = '''' then False
                 else (case parse (notice_sdt emb) of
                         None \<Rightarrow> False
                       | Some notice_dt \<Rightarrow> \<not> notice_dt < ld))))"

definition apply_filters :: "(string \<Rightarrow> int option) \<Rightarrow> string \<Rightarrow> string \<Rightarrow> int option \<Rightarrow> DbEmbedding list \<Rightarrow> DbEmbedding list" where
  "apply_filters parse animal_code gender_filter lost_date dataset =
     (if animal_code \<noteq> '''' \<or> gender_filter \<noteq> '''' \<or> lost_date \<noteq> None
      then filter (keeps parse animal_code gender_filter lost_date) dataset
      else dataset)"

definition bbox_payload :: "DetectionResult \<Rightarrow> query_bbox" where
  "bbox_payload d =
     (case bbox d of (a, b, c, e) \<Rightarrow> \<lparr>x1 = a, y1 = b, x2 = c, y2 = e, bconf = conf d\<rparr>)"

text \<open>\<^verbatim>\<open>torch.topk(scores, k)\<close>: the indices of the \<^verbatim>\<open>k\<close> largest scores, largest
  first; it raises when \<^verbatim>\<open>k\<close> is not in \<^verbatim>\<open>0..len(scores)\<close>. The order among equal
  scores is not fixed by the library; the model keeps the scan order.\<close>

definition torch_topk :: "real list \<Rightarrow> int \<Rightarrow> error + nat list" where
  "torch_topk scores k =
     (if k < 0 \<or> int (length scores) < k then Inl (TopkOutOfRange k)
      else Inr (take (nat k) (sort_desc (\<lambda>i. scores ! i) [0..<length scores])))"

text \<open>Stage 1 (lines 305-311): the coarse scores of the whole filtered dataset against
  the normalised query, and the shortlist.\<close>

definition coarse_shortlist :: "DbEmbedding list \<Rightarrow> vector \<Rightarrow> int \<Rightarrow> int \<Rightarrow> error + DbEmbedding list" where
  "coarse_shortlist dataset q topk coarse_topk =
     (let coarse_scores = map (\<lambda>e. dot (F_normalize (vec e)) q) dataset;
          topn = min (int (length dataset)) (max topk coarse_topk)
      in case torch_topk coarse_scores topn of
           Inl err \<Rightarrow> Inl err
         | Inr topn_idx \<Rightarrow> Inr (map (\<lambda>i. dataset ! i) topn_idx))"

text \<open>Stage 2 (lines 314-324): the shortlist is scored through the head in batches of
  512; each batch appends its (similarity, entry) pairs.\<close>

function rerank :: "(vector \<Rightarrow> vector) \<Rightarrow> vector \<Rightarrow> DbEmbedding list \<Rightarrow> (real \<times> DbEmbedding) list" where
  "rerank head query_t shortlist =
     (if shortlist = [] then []
      else map (\<lambda>emb. (dot (head (F_normalize (vec emb))) query_t, emb)) (take 512 shortlist)
           @ rerank head query_t (drop 512 shortlist))"
  by pat_completeness auto
termination
  by (relation "measure (\<lambda>(h, q, s). length s)") auto

declare rerank.simps [simp del]

text \<open>Lines 328-332: the dictionary \<^verbatim>\<open>best_per_id\<close>, as an association list in
  insertion order.\<close>

fun best_per_id_loop :: "(real \<times> DbEmbedding) list \<Rightarrow> (string \<times> (real \<times> DbEmbedding)) list \<Rightarrow> (string \<times> (real \<times> DbEmbedding)) list" where
  "best_per_id_loop [] best_per_id = best_per_id"
| "best_per_id_loop ((sim, emb) # rest) best_per_id =
     (case map_of best_per_id (desertion_no emb) of
        None \<Rightarrow> best_per_id_loop rest (AList.update (desertion_no emb) (sim, emb) best_per_id)
      | Some prev \<Rightarrow>
          (if sim > fst prev
           then best_per_id_loop rest (AList.update (desertion_no emb) (sim, emb) best_per_id)
           else best_per_id_loop rest best_per_id))"

text \<open>Lines 326-334: sort, deduplicate, sort again, cut to \<^verbatim>\<open>args.topk\<close>.\<close>

definition dedup_topk :: "(real \<times> DbEmbedding) list \<Rightarrow> int \<Rightarrow> (real \<times> DbEmbedding) list" where
  "dedup_topk scores topk =
     (let scores = sort_desc fst scores;
          best_per_id = best_per_id_loop scores [];
          deduped = sort_desc fst (map snd best_per_id)
      in py_slice_to topk deduped)"

definition result_of :: "real \<times> DbEmbedding \<Rightarrow> result" where
  "result_of p = (case p of (sim, emb) \<Rightarrow>
     \<lparr>r_desertion_no = desertion_no emb, r_side = side emb, r_similarity = sim,
      r_image_url = image_url emb, r_up_kind_cd = up_kind_cd emb, r_kind_nm = kind_nm emb,
      r_sex_cd = sex_cd emb, r_age = age emb, r_neuter_yn = neuter_yn emb,
      r_care_nm = care_nm emb, r_care_tel = care_tel emb, r_care_addr = care_addr emb,
      r_notice_sdt = notice_sdt emb, r_special_mark = special_mark emb\<rparr>)"

text \<open>The filtered dataset of a run, and the pairs that become its results.\<close>

definition filtered_dataset :: "env \<Rightarrow> DbEmbedding list" where
  "filtered_dataset e =
     apply_filters (fromisoformat e) (animal_code_of (SEARCH_ANIMAL_TYPE e))
       (gender_filter_of (SEARCH_GENDER e))
       (lost_date_of (fromisoformat e) (SEARCH_LOST_DATE e)) (loaded_dataset e)"

definition score_shortlist :: "(vector \<Rightarrow> vector) \<Rightarrow> vector \<Rightarrow> DbEmbedding list \<Rightarrow> int \<Rightarrow> int \<Rightarrow> error + (real \<times> DbEmbedding) list" where
  "score_shortlist head query_vec dataset topk coarse_topk =
     (let q = F_normalize query_vec;
          query_t = head q
      in case coarse_shortlist dataset q topk coarse_topk of
           Inl err \<Rightarrow> Inl err
         | Inr shortlist \<Rightarrow> Inr (rerank head query_t shortlist))"

definition search :: "(vector \<Rightarrow> vector) \<Rightarrow> vector \<Rightarrow> DbEmbedding list \<Rightarrow> int \<Rightarrow> int \<Rightarrow> error + (real \<times> DbEmbedding) list" where
  "search head query_vec dataset topk coarse_topk =
     (case score_shortlist head query_vec dataset topk coarse_topk of
        Inl err \<Rightarrow> Inl err
      | Inr scores \<Rightarrow> Inr (dedup_topk scores topk))"

text \<open>\<^verbatim>\<open>main\<close> (lines 207-364): the value is the payload printed, or the exception that
  ends the run.\<close>

definition main :: "env \<Rightarrow> error + payload" where
  "main e =
     (if \<not> image_isfile e then Inl ImageNotFound
      else case loaded_head e of
        None \<Rightarrow> Inl CheckpointNotFound
      | Some head \<Rightarrow>
         (case check_query_dim (EMBED_DIM e) (embedded_query e) of
            Inl err \<Rightarrow> Inl err
          | Inr query_vec \<Rightarrow>
             (let dataset = filtered_dataset e in
              if dataset = []
              then Inr \<lparr>p_query_bbox = bbox_payload (detection e), p_results = []\<rparr>
              else case search head query_vec dataset (topk_arg e) (COARSE_TOPK e) of
                     Inl err \<Rightarrow> Inl err
                   | Inr topk \<Rightarrow>
                       Inr \<lparr>p_query_bbox = bbox_payload (detection e),
                            p_results = map result_of topk\<rparr>)))"

text \<open>The list \<^verbatim>\<open>scores\<close> of a run that reaches stage 2: one pair per shortlisted side;
  empty for a run that ends before.\<close>

definition scored_sides :: "env \<Rightarrow> (real \<times> DbEmbedding) list" where
  "scored_sides e =
     (case loaded_head e of
        None \<Rightarrow> []
      | Some head \<Rightarrow>
         (case check_query_dim (EMBED_DIM e) (embedded_query e) of
            Inl err \<Rightarrow> []
          | Inr query_vec \<Rightarrow>
             (case score_shortlist head query_vec (filtered_dataset e) (topk_arg e) (COARSE_TOPK e) of
                Inl err \<Rightarrow> []
              | Inr scores \<Rightarrow> scores)))"

subsection \<open>A small run of the retriever\<close>

text \<open>Two sides of an entity A and one of an entity B, all dogs, with unit vectors of
  dimension 2; a query of length 3 that is cut to 2; the identity as head.\<close>

definition emb_of :: "string \<Rightarrow> string \<Rightarrow> vector \<Rightarrow> DbEmbedding" where
  "emb_of ident sd v =
     \<lparr>desertion_no = ident, side = sd, vec = v, image_url = [], up_kind_cd = ''417000'',
      kind_nm = [], sex_cd = ''M'', age = [], neuter_yn = [], care_nm = [], care_tel = [],
      care_addr = [], notice_sdt = [], special_mark = []\<rparr>"

definition demo_dataset :: "DbEmbedding list" where
  "demo_dataset =
     [emb_of ''A'' ''popfile1'' [0, 1], emb_of ''B'' ''popfile1'' [3 / 5, 4 / 5],
      emb_of ''A'' ''popfile2'' [1, 0]]"

definition demo_env :: env where
  "demo_env =
     \<lparr>image_isfile = True, topk_arg = 2, loaded_head = Some (\<lambda>v. v),
      detection = \<lparr>bbox = (3, 4, 50, 60), conf = 9 / 10, cls_id = 16\<rparr>,
      embedded_query = [1, 0, 7], EMBED_DIM = 2, COARSE_TOPK = 500,
      SEARCH_GENDER = [], SEARCH_LOST_DATE = [], SEARCH_ANIMAL_TYPE = [],
      fromisoformat = (\<lambda>s. None), loaded_dataset = demo_dataset\<rparr>"

definition demo_payload :: payload where
  "demo_payload =
     \<lparr>p_query_bbox = \<lparr>x1 = 3, y1 = 4, x2 = 50, y2 = 60, bconf = 9 / 10\<rparr>,
      p_results = [result_of (1, emb_of ''A'' ''popfile2'' [1, 0]),
                   result_of (3 / 5, emb_of ''B'' ''popfile1'' [3 / 5, 4 / 5])]\<rparr>"


section \<open>The projector (prepare\_triplet\_data.py)\<close>












section \<open>The triplet dataset (train\_triplet.py)\<close>

text \<open>
  The value of one entity in the dictionary that \<^verbatim>\<open>fetch_embeddings\<close> returns. The
  dictionary is an association list in insertion order; its keys are the
  \<^verbatim>\<open>desertion_no\<close> values, and the columns \<^verbatim>\<open>kind_cd\<close> and \<^verbatim>\<open>color_cd\<close> may be
  null.
\<close>

record info =
  vecs :: "vector list"
  kind :: "string option"
  color :: "string option"

type_synonym grouped = "(string \<times> info) list"

type_synonym meta_key = "string option \<times> string option"

record TripletDataset =
  ds_grouped :: grouped
  ids :: "string list"
  neg_ids :: "string list"
  length_mult :: int
  by_meta :: "(meta_key \<times> string list) list"

text \<open>\<^verbatim>\<open>self.by_meta.setdefault(key, []).append(did)\<close>\<close>

definition setdefault_append :: "(meta_key \<times> string list) list \<Rightarrow> meta_key \<Rightarrow> string \<Rightarrow> (meta_key \<times> string list) list" where
  "setdefault_append m key did =
     (case map_of m key of
        None \<Rightarrow> AList.update key [did] m
      | Some l \<Rightarrow> AList.update key (l @ [did]) m)"

fun by_meta_loop :: "grouped \<Rightarrow> (meta_key \<times> string list) list \<Rightarrow> (meta_key \<times> string list) list" where
  "by_meta_loop [] m = m"
| "by_meta_loop ((did, info) # rest) m =
     by_meta_loop rest (setdefault_append m (kind info, color info) did)"

text \<open>Line 69: the entities kept, those with at least two vectors.\<close>

definition eligible :: "grouped \<Rightarrow> grouped" where
  "eligible g = filter (\<lambda>(k, v). length (vecs v) \<ge> 2) g"

definition TripletDataset_init :: "grouped \<Rightarrow> int \<Rightarrow> TripletDataset" where
  "TripletDataset_init g lm =
     (let kept = eligible g in
      \<lparr>ds_grouped = kept, ids = map fst kept, neg_ids = map fst kept,
       length_mult = max 1 lm, by_meta = by_meta_loop kept []\<rparr>)"

text \<open>\<^verbatim>\<open>self.by_meta.get(key, [])\<close>\<close>

definition get_or_empty :: "(meta_key \<times> string list) list \<Rightarrow> meta_key \<Rightarrow> string list" where
  "get_or_empty m key = (case map_of m key of None \<Rightarrow> [] | Some l \<Rightarrow> l)"

definition ds_len :: "TripletDataset \<Rightarrow> int" where
  "ds_len self = int (length (ids self)) * length_mult self"

text \<open>
  The module \<^verbatim>\<open>random\<close> is a generator with a hidden state. The state is modelled as
  the stream of the numbers still to come; a request for a number below \<open>n\<close> takes the
  next one modulo \<open>n\<close>, so every sequence of outcomes comes from some stream.
\<close>

type_synonym random_state = "nat \<Rightarrow> nat"

definition advance :: "random_state \<Rightarrow> random_state" where
  "advance r = (\<lambda>k. r (Suc k))"

definition randbelow :: "random_state \<Rightarrow> nat \<Rightarrow> nat" where
  "randbelow r n = r 0 mod n"

text \<open>\<^verbatim>\<open>random.choice(seq)\<close>; it raises \<^verbatim>\<open>IndexError\<close> on an empty sequence.\<close>

definition choice :: "random_state \<Rightarrow> 'a list \<Rightarrow> error + ('a \<times> random_state)" where
  "choice r xs = (if xs = [] then Inl IndexError else Inr (xs ! randbelow r (length xs), advance r))"

text \<open>\<^verbatim>\<open>random.sample(population, 2)\<close>: two elements at different positions, the
  way the standard library picks them from a short population: a position \<open>i\<close> below
  \<open>n\<close> is drawn and its element taken, the last element is moved to position \<open>i\<close>,
  and a position below \<open>n - 1\<close> is drawn from the pool so changed. The result holds the
  two positions drawn from. Calls into the library are taken to return; the loop of
  \<^verbatim>\<open>__getitem__\<close> itself is the one place below where a run may go on for ever.\<close>

definition sample2 :: "random_state \<Rightarrow> 'a list \<Rightarrow> error + ((nat \<times> nat) \<times> random_state)" where
  "sample2 r population =
     (let n = length population in
      if n < 2 then Inl SampleLargerThanPopulation
      else (let i = randbelow r n;
                j = randbelow (advance r) (n - 1)
            in Inr ((i, if j = i then n - 1 else j), advance (advance r))))"

text \<open>Lines 97-98: \<^verbatim>\<open>while neg_id == did: neg_id = random.choice(self.neg_ids)\<close>. The
  value is \<open>None\<close> when the loop runs forever.\<close>

partial_function (option) resample_neg :: "string list \<Rightarrow> string \<Rightarrow> random_state \<Rightarrow> string \<Rightarrow> (string \<times> random_state) option" where
  "resample_neg negs did r neg_id =
     (if neg_id = did
      then resample_neg negs did (advance r) (negs ! randbelow r (length negs))
      else Some (neg_id, r))"

definition lookup :: "grouped \<Rightarrow> string \<Rightarrow> error + info" where
  "lookup g k = (case map_of g k of None \<Rightarrow> Inl KeyError | Some v \<Rightarrow> Inr v)"

text \<open>Lines 88-94: the weak positive and the random state after it.\<close>

definition weak_positive :: "TripletDataset \<Rightarrow> string \<Rightarrow> info \<Rightarrow> vector \<Rightarrow> random_state \<Rightarrow> error + (vector \<times> random_state)" where
  "weak_positive self did info positive_strong r =
     (let key = (kind info, color info);
          weak_ids = filter (\<lambda>x. x \<noteq> did) (get_or_empty (by_meta self) key)
      in if weak_ids \<noteq> [] then
           (case choice r weak_ids of
              Inl err \<Rightarrow> Inl err
            | Inr (w_id, r1) \<Rightarrow>
                (case lookup (ds_grouped self) w_id of
                   Inl err \<Rightarrow> Inl err
                 | Inr winfo \<Rightarrow> choice r1 (vecs winfo)))
         else Inr (positive_strong, r))"

text \<open>Lines 96-99: the negative. \<open>None\<close> when the resampling loop never ends.\<close>

definition negative_of :: "TripletDataset \<Rightarrow> string \<Rightarrow> random_state \<Rightarrow> (error + (string \<times> vector)) option" where
  "negative_of self did r =
     (case choice r (neg_ids self) of
        Inl err \<Rightarrow> Some (Inl err)
      | Inr (neg_id0, r1) \<Rightarrow>
          (case resample_neg (neg_ids self) did r1 neg_id0 of
             None \<Rightarrow> None
           | Some (neg_id, r2) \<Rightarrow>
               (case lookup (ds_grouped self) neg_id of
                  Inl err \<Rightarrow> Some (Inl err)
                | Inr ninfo \<Rightarrow>
                    (case choice r2 (vecs ninfo) of
                       Inl err \<Rightarrow> Some (Inl err)
                     | Inr (negative, r3) \<Rightarrow> Some (Inr (neg_id, negative))))))"

text \<open>\<^verbatim>\<open>__getitem__\<close> (lines 82-105). Besides the four vectors the value names the
  entity of the anchor, the two positions sampled and the entity of the negative, which
  the program does not return; \<open>getitem\<close> below forgets them.\<close>

record example =
  ex_did :: string
  ex_positions :: "nat \<times> nat"
  ex_neg_id :: string
  ex_anchor :: vector
  ex_positive_strong :: vector
  ex_weak_vec :: vector
  ex_negative :: vector

definition getitem_traced :: "TripletDataset \<Rightarrow> random_state \<Rightarrow> int \<Rightarrow> (error + example) option" where
  "getitem_traced self r idx =
     (if ids self = [] then Some (Inl ZeroDivisionError)
      else
        (let did = ids self ! nat (idx mod int (length (ids self))) in
         case lookup (ds_grouped self) did of
           Inl err \<Rightarrow> Some (Inl err)
         | Inr info \<Rightarrow>
            (case sample2 r (vecs info) of
               Inl err \<Rightarrow> Some (Inl err)
             | Inr ((i, j), r1) \<Rightarrow>
                (let anchor = vecs info ! i; positive_strong = vecs info ! j in
                 case weak_positive self did info positive_strong r1 of
                   Inl err \<Rightarrow> Some (Inl err)
                 | Inr (weak_vec, r2) \<Rightarrow>
                    (case negative_of self did r2 of
                       None \<Rightarrow> None
                     | Some (Inl err) \<Rightarrow> Some (Inl err)
                     | Some (Inr (neg_id, negative)) \<Rightarrow>
                         Some (Inr \<lparr>ex_did = did, ex_positions = (i, j), ex_neg_id = neg_id,
                                    ex_anchor = F_normalize anchor,
                                    ex_positive_strong = F_normalize positive_strong,
                                    ex_weak_vec = F_normalize weak_vec,
                                    ex_negative = F_normalize negative\<rparr>))))))"

definition getitem :: "TripletDataset \<Rightarrow> random_state \<Rightarrow> int \<Rightarrow> (error + vector \<times> vector \<times> vector \<times> vector) option" where
  "getitem self r idx =
     map_option (map_sum id (\<lambda>x. (ex_anchor x, ex_positive_strong x, ex_weak_vec x, ex_negative x)))
       (getitem_traced self r idx)"

text \<open>The entities a weak positive may come from: another entity of the dataset with the
  anchor's kind and colour.\<close>

definition weak_candidate :: "TripletDataset \<Rightarrow> string \<Rightarrow> info \<Rightarrow> string \<Rightarrow> info \<Rightarrow> bool" where
  "weak_candidate self did info w winfo =
     (w \<noteq> did \<and> map_of (ds_grouped self) w = Some winfo \<and>
      kind winfo = kind info \<and> color winfo = color info)"

text \<open>A random source that, from every point on, still draws an entity other than
  \<open>did\<close> from the negative pool. A source of uniform independent draws is of this kind
  with probability 1 as soon as the pool holds another entity.\<close>

definition draws_other :: "TripletDataset \<Rightarrow> string \<Rightarrow> random_state \<Rightarrow> bool" where
  "draws_other self did r =
     (\<forall>k. \<exists>m\<ge>k. neg_ids self ! (r m mod length (neg_ids self)) \<noteq> did)"

subsection \<open>Small datasets\<close>

text \<open>Entities A and B with two and three vectors and the same kind and colour, and an
  entity C with one vector; the same without B; and a random source given by its first
  numbers, which goes on with 1 for ever.\<close>

definition demo_grouped :: grouped where
  "demo_grouped =
     [(''A'', \<lparr>vecs = [[1, 0], [0, 1]], kind = Some ''417000'', color = Some ''white''\<rparr>),
      (''B'', \<lparr>vecs = [[1, 0], [3 / 5, 4 / 5], [0, 1]], kind = Some ''417000'', color = Some ''white''\<rparr>),
      (''C'', \<lparr>vecs = [[0, 1]], kind = Some ''422400'', color = None\<rparr>)]"

definition demo_single :: grouped where
  "demo_single =
     [(''A'', \<lparr>vecs = [[1, 0], [0, 1]], kind = Some ''417000'', color = Some ''white''\<rparr>),
      (''C'', \<lparr>vecs = [[0, 1]], kind = Some ''422400'', color = None\<rparr>)]"

fun stream_of :: "nat list \<Rightarrow> random_state" where
  "stream_of [] k = 1"
| "stream_of (x # xs) 0 = x"
| "stream_of (x # xs) (Suc k) = stream_of xs k"

definition demo_random :: random_state where
  "demo_random = stream_of [1, 0, 0, 1, 0]"

section \<open>The trainer (train\_triplet.py)\<close>

text \<open>\<^verbatim>\<open>str(n)\<close> for a Python integer, in decimal.\<close>

definition digit_char :: "nat \<Rightarrow> char" where
  "digit_char d = ''0123456789'' ! d"

fun str_nat :: "nat \<Rightarrow> string" where
  "str_nat n = (if n < 10 then [digit_char n] else str_nat (n div 10) @ [digit_char (n mod 10)])"

declare str_nat.simps [simp del]

definition str_int :: "int \<Rightarrow> string" where
  "str_int i = (if i < 0 then CHR ''-'' # str_nat (nat (- i)) else str_nat (nat i))"

text \<open>Reading a decimal numeral back, for the proof that \<open>str_int\<close> is injective.\<close>

definition digit_val :: "char \<Rightarrow> nat" where
  "digit_val c =
     (case map_of (zip ''0123456789'' [0, 1, 2, 3, 4, 5, 6, 7, 8, 9]) c of
        Some d \<Rightarrow> d | None \<Rightarrow> 0)"

definition dec_val :: "string \<Rightarrow> nat" where
  "dec_val s = foldl (\<lambda>a c. 10 * a + digit_val c) 0 s"

text \<open>\<^verbatim>\<open>os.path.join(a, b)\<close> for a relative \<^verbatim>\<open>b\<close>, and the checkpoint's path
  (line 228).\<close>

definition path_join :: "string \<Rightarrow> string \<Rightarrow> string" where
  "path_join a b = (if a = [] then b else if last a = CHR ''/'' then a @ b else a @ ''/'' @ b)"

definition ckpt_path :: "string \<Rightarrow> int \<Rightarrow> string" where
  "ckpt_path out_dir embed_dim = path_join out_dir (''triplet_head_'' @ str_int embed_dim @ ''.pt'')"

text \<open>The dictionary given to \<^verbatim>\<open>torch.save\<close>, and the files under \<^verbatim>\<open>OUT_DIR\<close>. The
  weights are of an arbitrary type \<open>'w\<close>.\<close>

record 'w checkpoint =
  state_dict :: 'w
  ck_embed_dim :: int
  ck_table :: string
  ck_epochs :: int
  ck_margin :: real

type_synonym 'w files = "string \<Rightarrow> 'w checkpoint option"

text \<open>
  The numerical side of a run, which the properties below do not look into: the initial weights of
  \<^verbatim>\<open>TinyHead(embed_dim)\<close>, the weights that the optimizer steps of one epoch lead to, and
  the validation loss of given weights. An epoch draws its batches through
  \<^verbatim>\<open>__getitem__\<close>, which may never return; \<open>None\<close> stands for that.
\<close>

record 'w numerics =
  init_weights :: "int \<Rightarrow> 'w"
  train_epoch :: "nat \<Rightarrow> 'w \<Rightarrow> 'w option"
  validate :: "'w \<Rightarrow> real option"

text \<open>\<^verbatim>\<open>TinyHead(embed_dim)\<close>: \<^verbatim>\<open>nn.Linear\<close> refuses a negative size.\<close>

definition TinyHead_init :: "'w numerics \<Rightarrow> int \<Rightarrow> error + 'w" where
  "TinyHead_init num embed_dim =
     (if embed_dim < 0 then Inl NegativeDimension else Inr (init_weights num embed_dim))"

text \<open>
  \<^verbatim>\<open>DataLoader(dataset, batch_size=..., shuffle=..., drop_last=False, num_workers=...)\<close>
  of \<^verbatim>\<open>torch.utils.data\<close>, as far as the trainer depends on it: the constructor
  refuses a negative number of workers; with \<^verbatim>\<open>shuffle=True\<close> it builds a
  \<^verbatim>\<open>RandomSampler\<close>, whose constructor raises \<^verbatim>\<open>ValueError\<close> ("num_samples should be
  a positive integer value") for a dataset of length 0; it refuses a batch size that is
  not positive. The value is \<^verbatim>\<open>len(loader)\<close>, the number of batches.
\<close>

definition DataLoader_init :: "int \<Rightarrow> int \<Rightarrow> bool \<Rightarrow> int \<Rightarrow> error + int" where
  "DataLoader_init dataset_len batch_size shuffle num_workers =
     (if num_workers < 0 then Inl BadNumWorkers
      else if shuffle \<and> dataset_len \<le> 0 then Inl EmptySampler
      else if batch_size \<le> 0 then Inl BadBatchSize
      else Inr ((dataset_len + batch_size - 1) div batch_size))"

text \<open>Lines 184-224: the epochs. Each epoch trains, then evaluates on the validation
  split without changing the weights, and prints the losses; the validation losses are
  kept as a log.\<close>

fun run_epochs :: "'w numerics \<Rightarrow> nat \<Rightarrow> nat \<Rightarrow> 'w \<Rightarrow> real list \<Rightarrow> ('w \<times> real list) option" where
  "run_epochs num 0 epoch model losses = Some (model, losses)"
| "run_epochs num (Suc n) epoch model losses =
     (case train_epoch num epoch model of
        None \<Rightarrow> None
      | Some model' \<Rightarrow>
          (case validate num model' of
             None \<Rightarrow> None
           | Some val_loss \<Rightarrow> run_epochs num n (Suc epoch) model' (losses @ [val_loss])))"

text \<open>What a call of \<^verbatim>\<open>train\<close> leaves behind: the files, the number of epochs run, the
  validation log, and the exception that ended it, if any.\<close>

record 'w run =
  files_after :: "'w files"
  epochs_run :: nat
  val_log :: "real list"
  raised :: "error option"

text \<open>\<^verbatim>\<open>train\<close> (lines 121-239). \<open>train_group\<close> and \<open>valid_group\<close> are what
  \<^verbatim>\<open>fetch_embeddings\<close> returns for the two splits; the validation split only enters
  the validation loss, which is part of the numerical side. The loader of the
  validation split is built after the training loader, with the same batch size and
  number of workers and without shuffling, so it raises nothing new. \<^verbatim>\<open>AdamW\<close> refuses
  a negative learning rate. \<open>None\<close>: the call never returns.\<close>

definition train :: "'w numerics \<Rightarrow> string \<Rightarrow> grouped \<Rightarrow> grouped \<Rightarrow> string \<Rightarrow> int \<Rightarrow> int \<Rightarrow> real \<Rightarrow> int \<Rightarrow> real \<Rightarrow> int \<Rightarrow> int \<Rightarrow> 'w files \<Rightarrow> 'w run option" where
  "train num out_dir train_group valid_group table embed_dim batch_size margin epochs lr
         length_mult' num_workers fs =
     (if train_group = []
      then Some \<lparr>files_after = fs, epochs_run = 0, val_log = [], raised = Some NoTrainEmbeddings\<rparr>
      else
        (let train_ds = TripletDataset_init train_group length_mult' in
         case DataLoader_init (ds_len train_ds) batch_size True num_workers of
           Inl err \<Rightarrow> Some \<lparr>files_after = fs, epochs_run = 0, val_log = [], raised = Some err\<rparr>
         | Inr train_steps \<Rightarrow>
            (case TinyHead_init num embed_dim of
               Inl err \<Rightarrow> Some \<lparr>files_after = fs, epochs_run = 0, val_log = [], raised = Some err\<rparr>
             | Inr model \<Rightarrow>
                if lr < 0
                then Some \<lparr>files_after = fs, epochs_run = 0, val_log = [],
                           raised = Some InvalidLearningRate\<rparr>
                else
                  (case run_epochs num (nat epochs) 0 model [] of
                     None \<Rightarrow> None
                   | Some (model', losses) \<Rightarrow>
                       Some \<lparr>files_after =
                               fs(ckpt_path out_dir embed_dim \<mapsto>
                                  \<lparr>state_dict = model', ck_embed_dim = embed_dim, ck_table = table,
                                   ck_epochs = epochs, ck_margin = margin\<rparr>),
                             epochs_run = nat epochs, val_log = losses, raised = None\<rparr>))))"

text \<open>The weights after \<open>n\<close> epochs of training alone, from epoch number \<open>epoch\<close> on.\<close>

fun weights_after :: "'w numerics \<Rightarrow> nat \<Rightarrow> nat \<Rightarrow> 'w \<Rightarrow> 'w option" where
  "weights_after num 0 epoch model = Some model"
| "weights_after num (Suc n) epoch model =
     (case train_epoch num epoch model of
        None \<Rightarrow> None
      | Some model' \<Rightarrow> weights_after num n (Suc epoch) model')"

text \<open>\<^verbatim>\<open>_parse_dims\<close> (lines 242-258) on the parts of \<^verbatim>\<open>DIM_LIST\<close> between commas:
  \<open>Some d\<close> for a part that \<^verbatim>\<open>int\<close> accepts, \<open>None\<close> for an empty or invalid one.\<close>

fun parse_dims_loop :: "int option list \<Rightarrow> int list \<Rightarrow> int list" where
  "parse_dims_loop [] dims = dims"
| "parse_dims_loop (None # parts) dims = parse_dims_loop parts dims"
| "parse_dims_loop (Some dim_val # parts) dims =
     (if dim_val \<in> set dims then parse_dims_loop parts dims
      else parse_dims_loop parts (dims @ [dim_val]))"

definition parse_dims :: "int option list \<Rightarrow> int list" where
  "parse_dims parts = parse_dims_loop parts []"

text \<open>The settings that the script reads from the environment, the two splits of each
  table, and the numerical side of the run for each table.\<close>

record 'w settings =
  OUT_DIR :: string
  DEFAULT_TABLE :: string
  DEFAULT_EMBED_DIM :: int
  DEFAULT_BATCH_SIZE :: int
  DEFAULT_LENGTH_MULT :: int
  DEFAULT_MARGIN :: real
  DEFAULT_EPOCHS :: int
  DEFAULT_LR :: real
  DEFAULT_NUM_WORKERS :: int
  DIM_LIST :: "int option list"
  fetch_embeddings :: "string \<Rightarrow> string \<Rightarrow> grouped"
  numerics_of :: "string \<Rightarrow> 'w numerics"

text \<open>Lines 261-287: the calls of \<^verbatim>\<open>train\<close> that the script makes, as (table, dimension)
  pairs, and their execution in order, which the first exception ends.\<close>

definition jobs :: "'w settings \<Rightarrow> (string \<times> int) list" where
  "jobs cfg =
     (let dims = parse_dims (DIM_LIST cfg) in
      if dims \<noteq> [] then map (\<lambda>d. (''animal_embeddings_'' @ str_int d, d)) dims
      else [(DEFAULT_TABLE cfg, DEFAULT_EMBED_DIM cfg)])"

definition train_job :: "'w settings \<Rightarrow> string \<times> int \<Rightarrow> 'w files \<Rightarrow> 'w run option" where
  "train_job cfg job fs =
     train (numerics_of cfg (fst job)) (OUT_DIR cfg)
       (fetch_embeddings cfg (fst job) ''train'') (fetch_embeddings cfg (fst job) ''valid'')
       (fst job) (snd job) (DEFAULT_BATCH_SIZE cfg) (DEFAULT_MARGIN cfg) (DEFAULT_EPOCHS cfg)
       (DEFAULT_LR cfg) (DEFAULT_LENGTH_MULT cfg) (DEFAULT_NUM_WORKERS cfg) fs"

fun run_jobs :: "'w settings \<Rightarrow> (string \<times> int) list \<Rightarrow> 'w files \<Rightarrow> ('w files \<times> error option) option" where
  "run_jobs cfg [] fs = Some (fs, None)"
| "run_jobs cfg (job # rest) fs =
     (case train_job cfg job fs of
        None \<Rightarrow> None
      | Some r \<Rightarrow>
          (case raised r of
             Some err \<Rightarrow> Some (files_after r, Some err)
           | None \<Rightarrow> run_jobs cfg rest (files_after r)))"

definition script :: "'w settings \<Rightarrow> 'w files \<Rightarrow> ('w files \<times> error option) option" where
  "script cfg fs = run_jobs cfg (jobs cfg) fs"

text \<open>The dictionary that the call for a job saves when it ends with the weights \<open>w\<close>.\<close>

definition saved_by :: "'w settings \<Rightarrow> string \<times> int \<Rightarrow> 'w \<Rightarrow> 'w checkpoint" where
  "saved_by cfg job w =
     \<lparr>state_dict = w, ck_embed_dim = snd job, ck_table = fst job,
      ck_epochs = DEFAULT_EPOCHS cfg, ck_margin = DEFAULT_MARGIN cfg\<rparr>"

subsection \<open>A small training run\<close>

text \<open>Weights that count the epochs trained, a validation loss that is lowest after the
  first epoch, three epochs, and \<^verbatim>\<open>DIM_LIST = "2,,2"\<close> over the demo dataset; and a
  training split whose only entity has a single vector.\<close>

definition demo_numerics :: "nat numerics" where
  "demo_numerics =
     \<lparr>init_weights = (\<lambda>d. 0), train_epoch = (\<lambda>epoch w. Some (Suc w)),
      validate = (\<lambda>w. Some (if w = 1 then 0 else 5))\<rparr>"

definition demo_settings :: "nat settings" where
  "demo_settings =
     \<lparr>OUT_DIR = ''checkpoints'', DEFAULT_TABLE = ''animal_embeddings_1024'',
      DEFAULT_EMBED_DIM = 1024, DEFAULT_BATCH_SIZE = 64, DEFAULT_LENGTH_MULT = 25,
      DEFAULT_MARGIN = 1 / 5, DEFAULT_EPOCHS = 3, DEFAULT_LR = 1 / 1000,
      DEFAULT_NUM_WORKERS = 0,
      DIM_LIST = [Some 2, None, Some 2],
      fetch_embeddings = (\<lambda>table split. demo_grouped),
      numerics_of = (\<lambda>table. demo_numerics)\<rparr>"

definition lonely_group :: grouped where
  "lonely_group = [(''C'', \<lparr>vecs = [[0, 1]], kind = Some ''422400'', color = None\<rparr>)]"

section \<open>Properties of the retriever\<close>

subsection \<open>Sorting, top-k and the rerank loop\<close>


lemma set_insort_desc: "set (insort_desc f x xs) = insert x (set xs)"
  by (induction xs) auto


lemma set_sort_desc: "set (sort_desc f xs) = set xs"
  unfolding sort_desc_def by (induction xs) (auto simp: set_insort_desc)

lemma distinct_map_insort_desc:
  "distinct (map g (insort_desc f x xs)) = (g x \<notin> g ` set xs \<and> distinct (map g xs))"
  by (induction xs) (auto simp: set_insort_desc)

lemma distinct_map_sort_desc: "distinct (map g (sort_desc f xs)) = distinct (map g xs)"
  unfolding sort_desc_def
  by (induction xs) (auto simp: distinct_map_insort_desc set_sort_desc[unfolded sort_desc_def])



lemma coarse_neg:
  assumes "max topk coarse_topk < 0"
  shows "coarse_shortlist dataset q topk coarse_topk = Inl (TopkOutOfRange (max topk coarse_topk))"
  using assms by (auto simp: coarse_shortlist_def torch_topk_def Let_def min_def)

lemma rerank_map: "rerank head query_t shortlist = map (\<lambda>emb. (dot (head (F_normalize (vec emb))) query_t, emb)) shortlist"
proof (induction head query_t shortlist rule: rerank.induct)
  case (1 head query_t shortlist)
  show ?case
  proof (cases "shortlist = []")
    case True then show ?thesis by (simp add: rerank.simps)
  next
    case False
    have "rerank head query_t shortlist = map (\<lambda>emb. (dot (head (F_normalize (vec emb))) query_t, emb)) (take 512 shortlist)
           @ rerank head query_t (drop 512 shortlist)"
      using False by (subst rerank.simps) simp
    also have "\<dots> = map (\<lambda>emb. (dot (head (F_normalize (vec emb))) query_t, emb)) (take 512 shortlist @ drop 512 shortlist)"
      unfolding map_append 1[OF False] ..
    finally show ?thesis by simp
  qed
qed

subsection \<open>The dictionary of best entries\<close>

lemma loop_distinct:
  "distinct (map fst bp) \<Longrightarrow> distinct (map fst (best_per_id_loop xs bp))"
  by (induction xs bp rule: best_per_id_loop.induct) (auto simp: distinct_update split: option.splits)

lemma loop_member:
  "map_of (best_per_id_loop xs bp) k = Some v \<Longrightarrow>
   (v \<in> set xs \<and> desertion_no (snd v) = k) \<or> map_of bp k = Some v"
proof (induction xs bp rule: best_per_id_loop.induct)
  case (1 bp)
  then show ?case by simp
next
  case (2 sim emb rest bp)
  let ?up = "AList.update (desertion_no emb) (sim, emb) bp"
  have up: "map_of ?up k = Some v \<Longrightarrow> (v = (sim, emb) \<and> desertion_no emb = k) \<or> map_of bp k = Some v"
    by (cases "desertion_no emb = k") (simp_all add: update_conv')
  show ?case
  proof (cases "map_of bp (desertion_no emb)")
    case None
    then have "map_of (best_per_id_loop rest ?up) k = Some v" using 2(4) by simp
    from 2(1)[OF None this] up show ?thesis by auto
  next
    case (Some prev)
    show ?thesis
    proof (cases "sim > fst prev")
      case True
      then have "map_of (best_per_id_loop rest ?up) k = Some v" using 2(4) Some by simp
      from 2(2)[OF Some True this] up show ?thesis by auto
    next
      case False
      then have "map_of (best_per_id_loop rest bp) k = Some v" using 2(4) Some by simp
      from 2(3)[OF Some False this] show ?thesis by auto
    qed
  qed
qed

lemma loop_mono:
  "map_of bp k = Some v \<Longrightarrow>
   \<exists>v'. map_of (best_per_id_loop xs bp) k = Some v' \<and> fst v \<le> fst v'"
proof (induction xs bp arbitrary: v rule: best_per_id_loop.induct)
  case (1 bp)
  then show ?case by simp
next
  case (2 sim emb rest bp)
  show ?case
  proof (cases "map_of bp (desertion_no emb)")
    case None
    then have ne: "desertion_no emb \<noteq> k" using 2(4) by auto
    have "map_of (AList.update (desertion_no emb) (sim, emb) bp) k = Some v"
      using ne 2(4) by (simp add: update_conv')
    from 2(1)[OF None this] show ?thesis using None by simp
  next
    case (Some prev)
    show ?thesis
    proof (cases "sim > fst prev")
      case True
      show ?thesis
      proof (cases "desertion_no emb = k")
        case True
        then have pv: "prev = v" using Some 2(4) by simp
        have "map_of (AList.update (desertion_no emb) (sim, emb) bp) k = Some (sim, emb)"
          using True by (simp add: update_conv')
        from 2(2)[OF Some \<open>sim > fst prev\<close> this] obtain v' where
          "map_of (best_per_id_loop rest (AList.update (desertion_no emb) (sim, emb) bp)) k = Some v'"
          "sim \<le> fst v'" by auto
        then show ?thesis using Some \<open>sim > fst prev\<close> pv by auto
      next
        case False
        have "map_of (AList.update (desertion_no emb) (sim, emb) bp) k = Some v"
          using False 2(4) by (simp add: update_conv')
        from 2(2)[OF Some \<open>sim > fst prev\<close> this] show ?thesis using Some \<open>sim > fst prev\<close> by simp
      qed
    next
      case False
      from 2(3)[OF Some False 2(4)] show ?thesis using Some False by simp
    qed
  qed
qed

lemma loop_max:
  "(s', e') \<in> set xs \<Longrightarrow>
   \<exists>v. map_of (best_per_id_loop xs bp) (desertion_no e') = Some v \<and> s' \<le> fst v"
proof (induction xs bp rule: best_per_id_loop.induct)
  case (1 bp)
  then show ?case by simp
next
  case (2 sim emb rest bp)
  show ?case
  proof (cases "(s', e') = (sim, emb)")
    case True
    show ?thesis
    proof (cases "map_of bp (desertion_no emb)")
      case None
      have "map_of (AList.update (desertion_no emb) (sim, emb) bp) (desertion_no emb) = Some (sim, emb)"
        by (simp add: update_conv')
      from loop_mono[OF this, of rest] show ?thesis using None True by auto
    next
      case (Some prev)
      show ?thesis
      proof (cases "sim > fst prev")
        case g: True
        have "map_of (AList.update (desertion_no emb) (sim, emb) bp) (desertion_no emb) = Some (sim, emb)"
          by (simp add: update_conv')
        from loop_mono[OF this, of rest] show ?thesis using Some True g by auto
      next
        case False
        from loop_mono[OF Some, of rest] show ?thesis using Some True False by auto
      qed
    qed
  next
    case False
    then have mem: "(s', e') \<in> set rest" using 2(4) by auto
    show ?thesis
    proof (cases "map_of bp (desertion_no emb)")
      case None
      from 2(1)[OF None mem] show ?thesis using None by simp
    next
      case (Some prev)
      show ?thesis
      proof (cases "sim > fst prev")
        case True
        from 2(2)[OF Some True mem] show ?thesis using Some True by simp
      next
        case f: False
        from 2(3)[OF Some f mem] show ?thesis using Some f by simp
      qed
    qed
  qed
qed

subsection \<open>The demo run, evaluated\<close>

lemma demo_l2norm: "l2norm [0,1] = 1" "l2norm [1,0] = 1" "l2norm [3/5, 4/5] = 1"
  by (simp_all add: l2norm_def power2_eq_square)

lemma demo_F_normalize: "F_normalize [0,1] = [0,1]" "F_normalize [1,0] = [1,0]" "F_normalize [3/5,4/5] = [3/5,4/5]"
  by (simp_all add: F_normalize_def demo_l2norm F_eps_def)

lemma demo_check_query_dim: "check_query_dim 2 [1,0,7] = Inr [1,0]"
  by (simp add: check_query_dim_def)

lemma demo_filtered_dataset: "filtered_dataset demo_env = demo_dataset"
  by (simp add: filtered_dataset_def demo_env_def apply_filters_def animal_code_of_def
      gender_filter_of_def lost_date_of_def lower_def strip_def)

lemma demo_coarse_shortlist: "coarse_shortlist demo_dataset [1,0] 2 500 = Inr [emb_of ''A'' ''popfile2'' [1, 0], emb_of ''B'' ''popfile1'' [3 / 5, 4 / 5], emb_of ''A'' ''popfile1'' [0, 1]]"
  by (simp add: coarse_shortlist_def demo_dataset_def emb_of_def demo_F_normalize dot_def torch_topk_def sort_desc_def upt_rec)

lemma animal_code_of_Cat: "animal_code_of ''Cat '' = ''422400''"
  by (simp add: animal_code_of_def lower_def strip_def is_space_def lower_char_def)

subsection \<open>Deduplication\<close>

lemma py_slice_to_take: "\<exists>n. py_slice_to k xs = take n xs"
  by (auto simp: py_slice_to_def)

lemma dedup_topk_distinct: "distinct (map (desertion_no \<circ> snd) (dedup_topk scores k))"
proof -
  let ?bp = "best_per_id_loop (sort_desc fst scores) []"
  have d: "distinct (map fst ?bp)" by (rule loop_distinct) simp
  have key: "desertion_no (snd v) = k'" if "(k', v) \<in> set ?bp" for k' v
  proof -
    from that d have "map_of ?bp k' = Some v" by simp
    from loop_member[OF this] show ?thesis by simp
  qed
  have eq: "map (desertion_no \<circ> snd) (map snd ?bp) = map fst ?bp"
    using key by (auto simp: map_eq_conv)
  have "distinct (map (desertion_no \<circ> snd) (map snd ?bp))"
    unfolding eq by (rule d)
  then have "distinct (map (desertion_no \<circ> snd) (sort_desc fst (map snd ?bp)))"
    by (simp only: distinct_map_sort_desc)
  moreover obtain n where "dedup_topk scores k = take n (sort_desc fst (map snd ?bp))"
    using py_slice_to_take[of k "sort_desc fst (map snd ?bp)"] by (auto simp: dedup_topk_def Let_def)
  ultimately show ?thesis by (simp add: take_map[symmetric] distinct_take del: take_map)
qed

lemma dedup_topk_max:
  assumes "(sim, emb) \<in> set (dedup_topk scores k)"
  shows "(sim, emb) \<in> set scores \<and>
         (\<forall>(s', e') \<in> set scores. desertion_no e' = desertion_no emb \<longrightarrow> s' \<le> sim)"
proof -
  let ?bp = "best_per_id_loop (sort_desc fst scores) []"
  have d: "distinct (map fst ?bp)" by (rule loop_distinct) simp
  obtain n where "dedup_topk scores k = take n (sort_desc fst (map snd ?bp))"
    using py_slice_to_take[of k "sort_desc fst (map snd ?bp)"] by (auto simp: dedup_topk_def Let_def)
  with assms have "(sim, emb) \<in> set (sort_desc fst (map snd ?bp))"
    by (auto dest: in_set_takeD)
  then obtain k' where k': "(k', (sim, emb)) \<in> set ?bp"
    by (auto simp: set_sort_desc)
  with d have m: "map_of ?bp k' = Some (sim, emb)" by simp
  from loop_member[OF m] have mem: "(sim, emb) \<in> set scores" and kid: "desertion_no emb = k'"
    by (simp_all add: set_sort_desc)
  have "s' \<le> sim" if "(s', e') \<in> set scores" "desertion_no e' = desertion_no emb" for s' e'
  proof -
    from that(1) have "(s', e') \<in> set (sort_desc fst scores)" by (simp add: set_sort_desc)
    from loop_max[OF this, of "[]"] obtain v where
      "map_of ?bp (desertion_no e') = Some v" "s' \<le> fst v" by blast
    with m kid that(2) show ?thesis by auto
  qed
  with mem show ?thesis by blast
qed

text \<open>
  C4. Deduplication invariant: in the result list of every run that returns a payload no
  \<open>desertion_no\<close> appears twice, and every result is one of the scored sides and has the
  maximum similarity among the scored sides of its entity.
\<close>

theorem dedup_invariant:
  assumes "main e = Inr p"
  shows "distinct (map r_desertion_no (p_results p)) \<and>
         (\<forall>r \<in> set (p_results p).
            (\<exists>(sim, emb) \<in> set (scored_sides e). r = result_of (sim, emb)) \<and>
            (\<forall>(s', e') \<in> set (scored_sides e).
               desertion_no e' = r_desertion_no r \<longrightarrow> s' \<le> r_similarity r))"
proof (cases "filtered_dataset e = []")
  case True
  with assms have "p_results p = []"
    by (auto simp: main_def Let_def split: if_splits option.splits sum.splits)
  then show ?thesis by simp
next
  case False
  from assms False obtain head query_vec scores where
    h: "loaded_head e = Some head" and
    q: "check_query_dim (EMBED_DIM e) (embedded_query e) = Inr query_vec" and
    sc: "score_shortlist head query_vec (filtered_dataset e) (topk_arg e) (COARSE_TOPK e) = Inr scores" and
    res: "p_results p = map result_of (dedup_topk scores (topk_arg e))"
    by (auto simp: main_def search_def Let_def split: if_splits option.splits sum.splits)
  have ss: "scored_sides e = scores" using h q sc by (simp add: scored_sides_def)
  have "map r_desertion_no (p_results p) = map (desertion_no \<circ> snd) (dedup_topk scores (topk_arg e))"
    unfolding res by (auto simp: result_of_def)
  then have 1: "distinct (map r_desertion_no (p_results p))"
    using dedup_topk_distinct by simp
  have 2: "(\<exists>(sim, emb) \<in> set (scored_sides e). r = result_of (sim, emb)) \<and>
            (\<forall>(s', e') \<in> set (scored_sides e).
               desertion_no e' = r_desertion_no r \<longrightarrow> s' \<le> r_similarity r)"
    if "r \<in> set (p_results p)" for r
  proof -
    from that res obtain sim emb where
      m: "(sim, emb) \<in> set (dedup_topk scores (topk_arg e))" and r: "r = result_of (sim, emb)"
      by auto
    from dedup_topk_max[OF m] r show ?thesis unfolding ss
      by (auto simp: result_of_def)
  qed
  from 1 2 show ?thesis by blast
qed

lemma demo_fields:
  "image_isfile demo_env" "loaded_head demo_env = Some (\<lambda>v. v)" "EMBED_DIM demo_env = 2"
  "embedded_query demo_env = [1, 0, 7]" "topk_arg demo_env = 2" "COARSE_TOPK demo_env = 500"
  "detection demo_env = \<lparr>bbox = (3, 4, 50, 60), conf = 9 / 10, cls_id = 16\<rparr>"
  by (simp_all add: demo_env_def)

lemma demo_scores: "scored_sides demo_env =
   [(1, emb_of ''A'' ''popfile2'' [1, 0]), (3/5, emb_of ''B'' ''popfile1'' [3 / 5, 4 / 5]), (0, emb_of ''A'' ''popfile1'' [0, 1])]"
  by (simp add: scored_sides_def demo_filtered_dataset score_shortlist_def demo_F_normalize demo_coarse_shortlist rerank_map demo_fields demo_check_query_dim dot_def emb_of_def)

lemma demo_main: "main demo_env = Inr \<lparr>p_query_bbox = \<lparr>x1 = 3, y1 = 4, x2 = 50, y2 = 60, bconf = 9/10\<rparr>,
     p_results = [result_of (1, emb_of ''A'' ''popfile2'' [1, 0]), result_of (3/5, emb_of ''B'' ''popfile1'' [3 / 5, 4 / 5])]\<rparr>"
proof -
  have "search (\<lambda>v. v) [1,0] demo_dataset 2 500 = Inr [(1, emb_of ''A'' ''popfile2'' [1, 0]), (3/5, emb_of ''B'' ''popfile1'' [3 / 5, 4 / 5])]"
    by (simp add: search_def score_shortlist_def demo_F_normalize demo_coarse_shortlist rerank_map emb_of_def dot_def dedup_topk_def sort_desc_def py_slice_to_def)
  then show ?thesis
    by (simp add: main_def demo_filtered_dataset demo_fields demo_check_query_dim demo_dataset_def bbox_payload_def)
qed

subsection \<open>Coverage, query dimension, empty dataset\<close>




text \<open>The demo run: entity A has two scored sides (similarities 1 and 0) and is listed
  once, with similarity 1.\<close>

theorem dedup_invariant_witness:
  "main demo_env = Inr demo_payload \<and>
   distinct (map r_desertion_no (p_results demo_payload)) \<and>
   map r_desertion_no (p_results demo_payload) = [''A'', ''B''] \<and>
   map r_similarity (p_results demo_payload) = [1, 3 / 5] \<and>
   (0, emb_of ''A'' ''popfile1'' [0, 1]) \<in> set (scored_sides demo_env)"
proof -
  have m: "main demo_env = Inr demo_payload"
    using demo_main by (simp add: demo_payload_def)
  from dedup_invariant[OF m] have "distinct (map r_desertion_no (p_results demo_payload))"
    by blast
  with m show ?thesis
    by (simp add: demo_scores) (simp add: demo_payload_def result_of_def emb_of_def)
qed

text \<open>
  C6. Query-dimension handling: a query vector longer than the configured dimension is cut
  to its first \<open>EMBED_DIM\<close> components and the run is the run on the cut vector, which never
  ends in a dimension mismatch; a query vector shorter than the configured dimension ends
  the run with the dimension-mismatch error (no padding, no second attempt), provided the
  image and the head were loaded, which happens before.
\<close>

theorem query_dim_handling:
  "(EMBED_DIM e < length (embedded_query e) \<longrightarrow>
      check_query_dim (EMBED_DIM e) (embedded_query e) = Inr (take (EMBED_DIM e) (embedded_query e)) \<and>
      main e = main (e\<lparr>embedded_query := take (EMBED_DIM e) (embedded_query e)\<rparr>) \<and>
      (\<forall>a b. main e \<noteq> Inl (QueryDimMismatch a b))) \<and>
   (length (embedded_query e) < EMBED_DIM e \<longrightarrow>
      check_query_dim (EMBED_DIM e) (embedded_query e)
        = Inl (QueryDimMismatch (length (embedded_query e)) (EMBED_DIM e)) \<and>
      (image_isfile e \<longrightarrow> loaded_head e \<noteq> None \<longrightarrow>
         main e = Inl (QueryDimMismatch (length (embedded_query e)) (EMBED_DIM e))))"
proof (intro conjI impI)
  assume gt: "EMBED_DIM e < length (embedded_query e)"
  then show c: "check_query_dim (EMBED_DIM e) (embedded_query e) = Inr (take (EMBED_DIM e) (embedded_query e))"
    by (simp add: check_query_dim_def)
  have c': "check_query_dim (EMBED_DIM e) (take (EMBED_DIM e) (embedded_query e)) = Inr (take (EMBED_DIM e) (embedded_query e))"
    using gt by (simp add: check_query_dim_def)
  show "main e = main (e\<lparr>embedded_query := take (EMBED_DIM e) (embedded_query e)\<rparr>)"
    by (cases "loaded_head e") (simp_all add: main_def c c' filtered_dataset_def Let_def split: sum.splits)
  have nq: "search h qv ds k ck \<noteq> Inl (QueryDimMismatch a b)" for h qv ds k ck a b
    by (auto simp: search_def score_shortlist_def coarse_shortlist_def torch_topk_def Let_def split: sum.splits if_splits)
  show "\<forall>a b. main e \<noteq> Inl (QueryDimMismatch a b)"
    using nq by (auto simp: main_def c Let_def split: option.splits sum.splits)
next
  assume lt: "length (embedded_query e) < EMBED_DIM e"
  then show c: "check_query_dim (EMBED_DIM e) (embedded_query e)
        = Inl (QueryDimMismatch (length (embedded_query e)) (EMBED_DIM e))"
    by (simp add: check_query_dim_def)
  assume "image_isfile e" "loaded_head e \<noteq> None"
  then show "main e = Inl (QueryDimMismatch (length (embedded_query e)) (EMBED_DIM e))"
    by (auto simp: main_def c)
qed

text \<open>Both branches on the demo run: the query of length 3 is cut to 2 and answered; a
  query of length 1 is refused.\<close>

theorem query_dim_handling_witness:
  "EMBED_DIM demo_env < length (embedded_query demo_env) \<and>
   main demo_env = main (demo_env\<lparr>embedded_query := [1, 0]\<rparr>) \<and>
   main demo_env = Inr demo_payload \<and>
   length (embedded_query (demo_env\<lparr>embedded_query := [1]\<rparr>)) < EMBED_DIM (demo_env\<lparr>embedded_query := [1]\<rparr>) \<and>
   main (demo_env\<lparr>embedded_query := [1]\<rparr>) = Inl (QueryDimMismatch 1 2)"
proof -
  have g: "EMBED_DIM demo_env < length (embedded_query demo_env)"
    by (simp add: demo_env_def)
  have l: "length (embedded_query (demo_env\<lparr>embedded_query := [1]\<rparr>)) < EMBED_DIM (demo_env\<lparr>embedded_query := [1]\<rparr>)"
    by (simp add: demo_env_def)
  have f: "image_isfile (demo_env\<lparr>embedded_query := [1]\<rparr>)" "loaded_head (demo_env\<lparr>embedded_query := [1]\<rparr>) \<noteq> None"
    by (simp_all add: demo_env_def)
  from query_dim_handling[of demo_env] g
  have 1: "main demo_env = main (demo_env\<lparr>embedded_query := take (EMBED_DIM demo_env) (embedded_query demo_env)\<rparr>)"
    by blast
  from query_dim_handling[of "demo_env\<lparr>embedded_query := [1]\<rparr>"] l f
  have 2: "main (demo_env\<lparr>embedded_query := [1]\<rparr>) = Inl (QueryDimMismatch 1 2)"
    by (simp add: demo_env_def)
  have m: "main demo_env = Inr demo_payload"
    using demo_main by (simp add: demo_payload_def)
  from 1 2 g l m show ?thesis by (simp add: demo_fields)
qed

text \<open>
  C7. Empty filtered dataset: a run that reaches the filters (image found, head loaded,
  query vector not shorter than the configured dimension) and whose dataset is empty after
  the animal-type, gender and notice-date filters returns a payload, not an error; its
  result list is empty and its \<open>query_bbox\<close> holds the four corners and the confidence
  of the detection.
\<close>

theorem empty_dataset_not_fatal:
  assumes "image_isfile e" and "loaded_head e = Some head"
    and "EMBED_DIM e \<le> length (embedded_query e)"
    and "filtered_dataset e = []"
  shows "main e = Inr \<lparr>p_query_bbox =
                        \<lparr>x1 = fst (bbox (detection e)), y1 = fst (snd (bbox (detection e))),
                         x2 = fst (snd (snd (bbox (detection e)))),
                         y2 = snd (snd (snd (bbox (detection e)))),
                         bconf = conf (detection e)\<rparr>,
                      p_results = []\<rparr>"
proof -
  obtain qv where "check_query_dim (EMBED_DIM e) (embedded_query e) = Inr qv"
    using assms(3) by (cases "length (embedded_query e) = EMBED_DIM e") (simp_all add: check_query_dim_def)
  then show ?thesis using assms
    by (simp add: main_def bbox_payload_def split: prod.splits)
qed

text \<open>The demo dataset holds dogs only: with the animal type set to cat nothing is left,
  and the payload carries the detection and no result.\<close>

theorem empty_dataset_not_fatal_witness:
  "filtered_dataset (demo_env\<lparr>SEARCH_ANIMAL_TYPE := ''cat''\<rparr>) = [] \<and>
   main (demo_env\<lparr>SEARCH_ANIMAL_TYPE := ''cat''\<rparr>)
     = Inr \<lparr>p_query_bbox = \<lparr>x1 = 3, y1 = 4, x2 = 50, y2 = 60, bconf = 9 / 10\<rparr>, p_results = []\<rparr>"
proof -
  let ?e = "demo_env\<lparr>SEARCH_ANIMAL_TYPE := ''cat''\<rparr>"
  have 1: "image_isfile ?e" and 2: "loaded_head ?e = Some (\<lambda>v. v)"
    and 3: "EMBED_DIM ?e \<le> length (embedded_query ?e)"
    by (simp_all add: demo_env_def)
  have 4: "filtered_dataset ?e = []"
    by (simp add: filtered_dataset_def demo_env_def apply_filters_def animal_code_of_def
        lower_def strip_def is_space_def lower_char_def keeps_def demo_dataset_def emb_of_def)
  from empty_dataset_not_fatal[OF 1 2 3 4] 4 show ?thesis
    by (simp add: demo_env_def)
qed

section \<open>Properties of the projector\<close>

subsection \<open>Norms\<close>







subsection \<open>Projection\<close>


















section \<open>Properties of the triplet dataset\<close>

subsection \<open>The resampling loop\<close>

lemma resample_neg_result:
  assumes "resample_neg negs did r neg_id = Some y"
  shows "fst y \<noteq> did \<and> (fst y = neg_id \<or> (negs \<noteq> [] \<longrightarrow> fst y \<in> set negs))"
proof (rule resample_neg.raw_induct[where P="\<lambda>n d r' x y. fst y \<noteq> d \<and> (fst y = x \<or> (n \<noteq> [] \<longrightarrow> fst y \<in> set n))", OF _ assms])
  fix f n d r' x y
  assume IH: "\<And>n d r' x y. f n d r' x = Some y \<Longrightarrow> fst y \<noteq> d \<and> (fst y = x \<or> (n \<noteq> [] \<longrightarrow> fst y \<in> set n))"
    and eq: "(if x = d then f n d (advance r') (n ! randbelow r' (length n)) else Some (x, r')) = Some y"
  show "fst y \<noteq> d \<and> (fst y = x \<or> (n \<noteq> [] \<longrightarrow> fst y \<in> set n))"
  proof (cases "x = d")
    case True
    with eq have "f n d (advance r') (n ! randbelow r' (length n)) = Some y" by simp
    from IH[OF this] show ?thesis
      by (auto simp: randbelow_def)
  next
    case False
    with eq show ?thesis by auto
  qed
qed

lemma resample_neg_stop: "neg_id \<noteq> did \<Longrightarrow> resample_neg negs did r neg_id = Some (neg_id, r)"
  by (subst resample_neg.simps) simp

lemma advance_nth: "advance r k = r (Suc k)"
  by (simp add: advance_def)

lemma resample_neg_terminates:
  "negs ! (r m mod length negs) \<noteq> did \<Longrightarrow> \<exists>y. resample_neg negs did r neg_id = Some y"
proof (induction m arbitrary: r neg_id)
  case 0
  show ?case
  proof (cases "neg_id = did")
    case True
    have "resample_neg negs did (advance r) (negs ! randbelow r (length negs))
            = Some (negs ! randbelow r (length negs), advance r)"
      using 0 by (intro resample_neg_stop) (simp add: randbelow_def)
    then show ?thesis using True by (subst resample_neg.simps) simp
  next
    case False
    then show ?thesis by (simp add: resample_neg_stop)
  qed
next
  case (Suc m)
  show ?case
  proof (cases "neg_id = did")
    case True
    have "negs ! (advance r m mod length negs) \<noteq> did"
      using Suc.prems by (simp add: advance_nth)
    from Suc.IH[of "advance r" "negs ! randbelow r (length negs)", OF this] obtain y where
      "resample_neg negs did (advance r) (negs ! randbelow r (length negs)) = Some y"
      by blast
    then show ?thesis using True by (subst resample_neg.simps) simp
  next
    case False
    then show ?thesis by (simp add: resample_neg_stop)
  qed
qed

lemma resample_neg_forever:
  assumes "\<forall>x \<in> set negs. x = did" and "negs \<noteq> []"
  shows "resample_neg negs did r did = None"
proof (rule ccontr)
  assume "resample_neg negs did r did \<noteq> None"
  then obtain y where y: "resample_neg negs did r did = Some y" by auto
  from resample_neg_result[OF y] assms show False by auto
qed

subsection \<open>The dataset built by the constructor\<close>

lemma init_fields:
  "ds_grouped (TripletDataset_init g lm) = eligible g"
  "ids (TripletDataset_init g lm) = map fst (eligible g)"
  "neg_ids (TripletDataset_init g lm) = map fst (eligible g)"
  "by_meta (TripletDataset_init g lm) = by_meta_loop (eligible g) []"
  "length_mult (TripletDataset_init g lm) = max 1 lm"
  by (simp_all add: TripletDataset_init_def Let_def)

lemma distinct_kept: "distinct (map fst g) \<Longrightarrow> distinct (map fst (eligible g))"
  by (simp add: eligible_def distinct_map_filter)

lemma kept_lookup:
  assumes "distinct (map fst g)"
  shows "map_of (eligible g) k = Some v \<longleftrightarrow> map_of g k = Some v \<and> length (vecs v) \<ge> 2"
proof -
  have "map_of (eligible g) k = Some v \<longleftrightarrow> (k, v) \<in> set (eligible g)"
    using distinct_kept[OF assms] by simp
  also have "\<dots> \<longleftrightarrow> (k, v) \<in> set g \<and> length (vecs v) \<ge> 2"
    by (auto simp: eligible_def)
  also have "\<dots> \<longleftrightarrow> map_of g k = Some v \<and> length (vecs v) \<ge> 2"
    using assms by simp
  finally show ?thesis .
qed

lemma kept_member:
  "k \<in> set (map fst (eligible g)) \<Longrightarrow> \<exists>v. map_of (eligible g) k = Some v"
  by (metis map_of_eq_None_iff not_Some_eq set_map)

lemma get_or_empty_setdefault:
  "get_or_empty (setdefault_append m k d) key = (if key = k then get_or_empty m k @ [d] else get_or_empty m key)"
  by (auto simp: get_or_empty_def setdefault_append_def update_conv' split: option.splits)

lemma get_or_empty_loop:
  "get_or_empty (by_meta_loop g m) key
     = get_or_empty m key @ map fst (filter (\<lambda>(d, i). (kind i, color i) = key) g)"
  by (induction g m rule: by_meta_loop.induct) (auto simp: get_or_empty_setdefault)

lemma weak_ids_set:
  assumes "distinct (map fst g)"
  shows "set (filter (\<lambda>x. x \<noteq> did) (get_or_empty (by_meta_loop (eligible g) []) key))
           = {w. w \<noteq> did \<and> (\<exists>winfo. map_of g w = Some winfo \<and> length (vecs winfo) \<ge> 2
                                 \<and> (kind winfo, color winfo) = key)}"
proof -
  have "get_or_empty (by_meta_loop (eligible g) []) key
          = map fst (filter (\<lambda>(d, i). (kind i, color i) = key) (eligible g))"
    unfolding get_or_empty_loop by (simp add: get_or_empty_def)
  then have "set (get_or_empty (by_meta_loop (eligible g) []) key)
          = {w. \<exists>winfo. (w, winfo) \<in> set (eligible g) \<and> (kind winfo, color winfo) = key}"
    by force
  also have "\<dots> = {w. \<exists>winfo. map_of (eligible g) w = Some winfo \<and> (kind winfo, color winfo) = key}"
    using distinct_kept[OF assms] by simp
  also have "\<dots> = {w. \<exists>winfo. map_of g w = Some winfo \<and> length (vecs winfo) \<ge> 2 \<and> (kind winfo, color winfo) = key}"
    by (simp add: kept_lookup[OF assms] conj_assoc)
  finally show ?thesis by auto
qed

lemma choice_Inr:
  "xs \<noteq> [] \<Longrightarrow> \<exists>x r'. choice r xs = Inr (x, r') \<and> x \<in> set xs"
  by (simp add: choice_def randbelow_def)


lemma sample2_Inr:
  "2 \<le> length xs \<Longrightarrow>
   \<exists>i j r'. sample2 r xs = Inr ((i, j), r') \<and> i < length xs \<and> j < length xs \<and> i \<noteq> j"
proof -
  assume l: "2 \<le> length xs"
  let ?n = "length xs"
  let ?i = "randbelow r ?n"
  let ?j = "randbelow (advance r) (?n - 1)"
  have "0 < ?n" "0 < ?n - 1" using l by linarith+
  then have i: "?i < ?n" and j: "?j < ?n - 1" by (simp_all add: randbelow_def)
  have "sample2 r xs = Inr ((?i, if ?j = ?i then ?n - 1 else ?j), advance (advance r))"
    using l by (simp add: sample2_def Let_def)
  moreover have "(if ?j = ?i then ?n - 1 else ?j) < ?n" using j l by auto
  moreover have "?i \<noteq> (if ?j = ?i then ?n - 1 else ?j)" using j by auto
  ultimately show ?thesis using i by blast
qed


subsection \<open>What an example is made of\<close>





subsection \<open>When an example is returned\<close>

lemma eligible_vecs:
  "distinct (map fst g) \<Longrightarrow> map_of (eligible g) k = Some v \<Longrightarrow> 2 \<le> length (vecs v)"
  by (simp add: kept_lookup)

lemma lookup_member:
  "k \<in> set (map fst (eligible g)) \<Longrightarrow> \<exists>v. lookup (eligible g) k = Inr v \<and> map_of (eligible g) k = Some v"
  using kept_member[of k g] by (auto simp: lookup_def)

lemma weak_positive_ok:
  assumes d: "distinct (map fst g)" and self: "self = TripletDataset_init g lm"
  shows "\<exists>wv r2. weak_positive self did info ps r = Inr (wv, r2) \<and>
                  (r2 = r \<or> r2 = advance (advance r))"
proof -
  let ?W = "filter (\<lambda>x. x \<noteq> did) (get_or_empty (by_meta self) (kind info, color info))"
  have W: "set ?W = {w. \<exists>winfo. weak_candidate self did info w winfo}"
    unfolding self init_fields weak_ids_set[OF d] weak_candidate_def
    by (simp add: kept_lookup[OF d] conj_assoc)
  show ?thesis
  proof (cases "?W = []")
    case True
    then show ?thesis by (simp add: weak_positive_def)
  next
    case False
    from choice_Inr[OF False, of r] obtain w_id r1 where
      c: "choice r ?W = Inr (w_id, r1)" and mem: "w_id \<in> set ?W" by blast
    have r1: "r1 = advance r" using c False by (simp add: choice_def)
    from mem obtain winfo where "weak_candidate self did info w_id winfo" unfolding W by blast
    then have m: "map_of (eligible g) w_id = Some winfo"
      by (simp add: weak_candidate_def self init_fields)
    then have l: "lookup (ds_grouped self) w_id = Inr winfo"
      by (simp add: lookup_def self init_fields)
    from eligible_vecs[OF d m] have ne: "vecs winfo \<noteq> []" by auto
    then have "choice r1 (vecs winfo) = Inr (vecs winfo ! randbelow r1 (length (vecs winfo)), advance r1)"
      by (simp add: choice_def)
    with c l False r1 show ?thesis
      by (simp add: weak_positive_def Let_def)
  qed
qed

lemma draws_other_advance: "draws_other self did r \<Longrightarrow> draws_other self did (advance r)"
  unfolding draws_other_def advance_def
proof
  fix k
  assume a: "\<forall>k. \<exists>m\<ge>k. neg_ids self ! (r m mod length (neg_ids self)) \<noteq> did"
  then obtain m where "m \<ge> Suc k" "neg_ids self ! (r m mod length (neg_ids self)) \<noteq> did" by blast
  then have "m - 1 \<ge> k \<and> neg_ids self ! (r (Suc (m - 1)) mod length (neg_ids self)) \<noteq> did"
    by auto
  then show "\<exists>m\<ge>k. neg_ids self ! (r (Suc m) mod length (neg_ids self)) \<noteq> did" by blast
qed

lemma negative_of_ok:
  assumes d: "distinct (map fst g)" and self: "self = TripletDataset_init g lm"
    and ne: "ids self \<noteq> []" and fair: "draws_other self did r"
  shows "\<exists>neg_id nv. negative_of self did r = Some (Inr (neg_id, nv))"
proof -
  have negs: "neg_ids self = map fst (eligible g)" "neg_ids self \<noteq> []"
    using ne by (simp_all add: self init_fields)
  from choice_Inr[OF negs(2), of r] obtain n0 r1 where
    c: "choice r (neg_ids self) = Inr (n0, r1)" and n0: "n0 \<in> set (neg_ids self)" by blast
  have r1: "r1 = advance r" using c negs(2) by (simp add: choice_def)
  from draws_other_advance[OF fair] obtain m where
    "neg_ids self ! (r1 m mod length (neg_ids self)) \<noteq> did"
    unfolding draws_other_def r1 by blast
  from resample_neg_terminates[of "neg_ids self" r1 m did n0, OF this] obtain y where
    y: "resample_neg (neg_ids self) did r1 n0 = Some y" by blast
  obtain neg_id r2 where yy: "y = (neg_id, r2)" by (cases y)
  from resample_neg_result[OF y] n0 negs(2) have "neg_id \<in> set (neg_ids self)"
    by (auto simp: yy)
  then have "neg_id \<in> set (map fst (eligible g))" by (simp add: negs)
  from lookup_member[OF this] obtain ninfo where
    l: "lookup (ds_grouped self) neg_id = Inr ninfo" and m: "map_of (eligible g) neg_id = Some ninfo"
    by (auto simp: self init_fields)
  from eligible_vecs[OF d m] have "vecs ninfo \<noteq> []" by auto
  from choice_Inr[OF this, of r2] obtain nv r3 where "choice r2 (vecs ninfo) = Inr (nv, r3)" by blast
  with c y yy l show ?thesis by (simp add: negative_of_def)
qed

lemma anchor_member:
  "ids self \<noteq> [] \<Longrightarrow> ids self ! nat (idx mod int (length (ids self))) \<in> set (ids self)"
  by (simp add: nat_less_iff)

lemma getitem_traced_ok:
  assumes d: "distinct (map fst g)" and self: "self = TripletDataset_init g lm"
    and ne: "ids self \<noteq> []"
    and fair: "draws_other self (ids self ! nat (idx mod int (length (ids self)))) r"
  shows "\<exists>x. getitem_traced self r idx = Some (Inr x)"
proof -
  let ?did = "ids self ! nat (idx mod int (length (ids self)))"
  have "?did \<in> set (map fst (eligible g))"
    using anchor_member[OF ne, of idx] by (simp add: self init_fields)
  from lookup_member[OF this] obtain info where
    l: "lookup (ds_grouped self) ?did = Inr info" and m: "map_of (eligible g) ?did = Some info"
    by (auto simp: self init_fields)
  from sample2_Inr[OF eligible_vecs[OF d m], of r] obtain i j r1 where
    s: "sample2 r (vecs info) = Inr ((i, j), r1)" by blast
  have r1: "r1 = advance (advance r)"
    using s by (auto simp: sample2_def Let_def split: if_splits)
  from weak_positive_ok[OF d self, of ?did info "vecs info ! j" r1] obtain wv r2 where
    w: "weak_positive self ?did info (vecs info ! j) r1 = Inr (wv, r2)"
    and r2: "r2 = r1 \<or> r2 = advance (advance r1)" by blast
  have "draws_other self ?did r2"
    using r2 r1 fair by (auto intro: draws_other_advance)
  from negative_of_ok[OF d self ne this] obtain neg_id nv where
    "negative_of self ?did r2 = Some (Inr (neg_id, nv))" by blast
  with l s w ne show ?thesis
    by (simp add: getitem_traced_def Let_def)
qed

lemma getitem_traced_forever:
  assumes d: "distinct (map fst g)" and self: "self = TripletDataset_init g lm"
    and one: "length (ids self) = 1"
  shows "getitem_traced self r idx = None"
proof -
  from one obtain did where ids: "ids self = [did]" by (cases "ids self") auto
  then have negs: "neg_ids self = [did]" "map fst (eligible g) = [did]"
    by (simp_all add: self init_fields)
  have "did \<in> set (map fst (eligible g))" by (simp add: negs)
  from lookup_member[OF this] obtain info where
    l: "lookup (ds_grouped self) did = Inr info" and m: "map_of (eligible g) did = Some info"
    by (auto simp: self init_fields)
  from sample2_Inr[OF eligible_vecs[OF d m], of r] obtain i j r1 where
    s: "sample2 r (vecs info) = Inr ((i, j), r1)" by blast
  from weak_positive_ok[OF d self, of did info "vecs info ! j" r1] obtain wv r2 where
    w: "weak_positive self did info (vecs info ! j) r1 = Inr (wv, r2)" by blast
  have "[did] ! randbelow r2 (Suc 0) = did" by (simp add: randbelow_def)
  then have "negative_of self did r2 = None"
    by (simp add: negative_of_def negs choice_def resample_neg_forever)
  with l s w ids show ?thesis
    by (simp add: getitem_traced_def Let_def)
qed

subsection \<open>Validity and termination\<close>


lemma getitem_None: "getitem self r idx = None \<longleftrightarrow> getitem_traced self r idx = None"
  by (simp add: getitem_def)

lemma getitem_ok:
  "getitem_traced self r idx = Some (Inr x) \<Longrightarrow> \<exists>y. getitem self r idx = Some (Inr y)"
  by (simp add: getitem_def)


lemma other_id:
  assumes "distinct xs" "2 \<le> length xs" "did \<in> set xs"
  shows "\<exists>p < length xs. xs ! p \<noteq> did"
proof (rule ccontr)
  assume "\<not> (\<exists>p < length xs. xs ! p \<noteq> did)"
  then have a: "\<forall>p < length xs. xs ! p = did" by blast
  have "0 < length xs" "1 < length xs" using assms(2) by linarith+
  with a have "xs ! 0 = xs ! 1" by metis
  with assms(1) \<open>0 < length xs\<close> \<open>1 < length xs\<close> show False
    by (simp add: distinct_conv_nth)
qed

lemma identity_draws_other:
  assumes "p < length (neg_ids self)" "neg_ids self ! p \<noteq> did"
  shows "draws_other self did (\<lambda>k. k)"
  unfolding draws_other_def
proof
  fix k
  let ?n = "length (neg_ids self)"
  have "k * ?n + p \<ge> k" using assms(1) by (cases ?n) auto
  moreover have "(k * ?n + p) mod ?n = p" using assms(1) by simp
  ultimately show "\<exists>m\<ge>k. neg_ids self ! (m mod ?n) \<noteq> did"
    using assms(2) by metis
qed

text \<open>
  C10. Termination of negative sampling. With at least two entities in the dataset,
  \<open>getitem\<close> returns an example for every index and every random source that keeps
  drawing, now and then, an entity other than the anchor's; such sources exist (the
  source \<open>0, 1, 2, \<dots>\<close> is one, for every index). With exactly one entity the negative
  pool is the list of ids, every draw is the anchor's entity, and \<open>getitem\<close> returns for
  no index and no random source.
\<close>

theorem negative_sampling_termination:
  assumes "distinct (map fst g)" and "self = TripletDataset_init g lm"
  shows "(2 \<le> length (ids self) \<longrightarrow>
            (\<forall>idx r. draws_other self (ids self ! nat (idx mod int (length (ids self)))) r \<longrightarrow>
                     (\<exists>x. getitem self r idx = Some (Inr x))) \<and>
            (\<forall>idx. draws_other self (ids self ! nat (idx mod int (length (ids self)))) (\<lambda>k. k))) \<and>
         (length (ids self) = 1 \<longrightarrow>
            neg_ids self = ids self \<and> (\<forall>idx r. getitem self r idx = None))"
proof (intro conjI impI allI)
  fix idx r
  assume "2 \<le> length (ids self)"
  then have ne: "ids self \<noteq> []" by auto
  assume "draws_other self (ids self ! nat (idx mod int (length (ids self)))) r"
  from getitem_traced_ok[OF assms ne this] show "\<exists>x. getitem self r idx = Some (Inr x)"
    by (auto dest: getitem_ok)
next
  fix idx
  assume two: "2 \<le> length (ids self)"
  then have ne: "ids self \<noteq> []" by auto
  have eq: "neg_ids self = ids self" by (simp add: assms(2) init_fields)
  have "distinct (ids self)" using distinct_kept[OF assms(1)] by (simp add: assms(2) init_fields)
  from other_id[OF this two anchor_member[OF ne, of idx]] obtain p where
    "p < length (ids self)" "ids self ! p \<noteq> ids self ! nat (idx mod int (length (ids self)))"
    by blast
  then show "draws_other self (ids self ! nat (idx mod int (length (ids self)))) (\<lambda>k. k)"
    by (intro identity_draws_other[of p]) (simp_all add: eq)
next
  show "neg_ids self = ids self" by (simp add: assms(2) init_fields)
next
  fix idx r
  assume "length (ids self) = 1"
  from getitem_traced_forever[OF assms this] show "getitem self r idx = None"
    by (simp add: getitem_None)
qed

subsection \<open>The demo dataset, evaluated\<close>

lemma demo_dataset_fields:
  "ids (TripletDataset_init demo_grouped 25) = [''A'', ''B'']"
  "neg_ids (TripletDataset_init demo_grouped 25) = [''A'', ''B'']"
  "ds_grouped (TripletDataset_init demo_grouped 25) =
     [(''A'', \<lparr>vecs = [[1, 0], [0, 1]], kind = Some ''417000'', color = Some ''white''\<rparr>),
      (''B'', \<lparr>vecs = [[1, 0], [3 / 5, 4 / 5], [0, 1]], kind = Some ''417000'', color = Some ''white''\<rparr>)]"
  "by_meta (TripletDataset_init demo_grouped 25) = [((Some ''417000'', Some ''white''), [''A'', ''B''])]"
  by (simp_all add: init_fields eligible_def demo_grouped_def setdefault_append_def)

lemma demo_single_fields:
  "ids (TripletDataset_init demo_single 25) = [''A'']"
  by (simp_all add: init_fields eligible_def demo_single_def)


lemma stream_of_later: "length xs \<le> m \<Longrightarrow> stream_of xs m = 1"
  by (induction xs m rule: stream_of.induct) auto

lemma demo_random_draws_other:
  "draws_other (TripletDataset_init demo_grouped 25) ''A'' demo_random"
  unfolding draws_other_def
proof
  fix k :: nat
  have "k + 5 \<ge> k" by simp
  moreover have "demo_random (k + 5) = 1"
    unfolding demo_random_def by (rule stream_of_later) simp
  ultimately show "\<exists>m\<ge>k. neg_ids (TripletDataset_init demo_grouped 25) !
       (demo_random m mod length (neg_ids (TripletDataset_init demo_grouped 25))) \<noteq> ''A''"
    by (intro exI[of _ "k + 5"]) (simp add: demo_dataset_fields)
qed


text \<open>With A and B the demo source yields an example; with A alone it yields none.\<close>

theorem negative_sampling_termination_witness:
  "distinct (map fst demo_grouped) \<and>
   2 \<le> length (ids (TripletDataset_init demo_grouped 25)) \<and>
   (\<exists>x. getitem (TripletDataset_init demo_grouped 25) demo_random 0 = Some (Inr x)) \<and>
   distinct (map fst demo_single) \<and>
   length (ids (TripletDataset_init demo_single 25)) = 1 \<and>
   getitem (TripletDataset_init demo_single 25) demo_random 0 = None"
proof -
  have d: "distinct (map fst demo_grouped)" "distinct (map fst demo_single)"
    by (simp_all add: demo_grouped_def demo_single_def)
  have l: "2 \<le> length (ids (TripletDataset_init demo_grouped 25))"
    "length (ids (TripletDataset_init demo_single 25)) = 1"
    by (simp_all add: demo_dataset_fields demo_single_fields)
  have f: "draws_other (TripletDataset_init demo_grouped 25)
             (ids (TripletDataset_init demo_grouped 25)
                ! nat (0 mod int (length (ids (TripletDataset_init demo_grouped 25))))) demo_random"
    using demo_random_draws_other by (simp add: demo_dataset_fields)
  from negative_sampling_termination[OF d(1) refl, of 25] l(1) f
  have "\<exists>x. getitem (TripletDataset_init demo_grouped 25) demo_random 0 = Some (Inr x)"
    by blast
  moreover from negative_sampling_termination[OF d(2) refl, of 25] l(2)
  have "getitem (TripletDataset_init demo_single 25) demo_random 0 = None"
    by blast
  ultimately show ?thesis using d l by blast
qed

section \<open>Properties of the trainer\<close>

lemma run_epochs_weights:
  "run_epochs num n epoch model losses = Some (model', losses') \<Longrightarrow>
   weights_after num n epoch model = Some model' \<and> length losses' = length losses + n"
proof (induction n arbitrary: epoch model losses)
  case 0
  then show ?case by simp
next
  case (Suc n)
  from Suc.prems obtain m1 l1 where
    t: "train_epoch num epoch model = Some m1" and v: "validate num m1 = Some l1"
    and r: "run_epochs num n (Suc epoch) m1 (losses @ [l1]) = Some (model', losses')"
    by (auto split: option.splits)
  from Suc.IH[OF r] t show ?case by simp
qed

lemma eligible_none:
  "\<forall>(k, v) \<in> set g. length (vecs v) < 2 \<Longrightarrow> eligible g = []"
  by (auto simp: eligible_def filter_empty_conv)

lemma ds_len_none:
  "\<forall>(k, v) \<in> set g. length (vecs v) < 2 \<Longrightarrow> ds_len (TripletDataset_init g lm) = 0"
  by (simp add: ds_len_def TripletDataset_init_def eligible_none Let_def)

lemma DataLoader_init_empty:
  "\<exists>err. DataLoader_init 0 batch_size True num_workers = Inl err"
  by (simp add: DataLoader_init_def)

text \<open>
  C2. Training with zero eligible entities is fatal: when no fetched training entity has
  at least two vectors, \<open>train\<close> ends with an exception, whatever the numerical side of
  the run is, with no epoch run and the files as they were. For an empty fetch the
  exception is the one \<open>train\<close> raises itself; for a fetch without eligible entity it is
  the one of the \<open>DataLoader\<close> constructor on the empty training dataset.
\<close>

theorem no_eligible_entity_is_fatal:
  assumes "\<forall>(k, v) \<in> set train_group. length (vecs v) < 2"
  shows "\<exists>err. train num out_dir train_group valid_group table embed_dim batch_size margin
                  epochs lr lm num_workers fs
               = Some \<lparr>files_after = fs, epochs_run = 0, val_log = [], raised = Some err\<rparr>"
proof (cases "train_group = []")
  case True
  then show ?thesis by (simp add: train_def)
next
  case False
  obtain err where "DataLoader_init 0 batch_size True num_workers = Inl err"
    using DataLoader_init_empty by blast
  with False show ?thesis
    by (simp add: train_def ds_len_none[OF assms])
qed

lemma train_completed:
  assumes "train num out_dir train_group valid_group table embed_dim batch_size margin
             epochs lr lm num_workers fs = Some r" and "raised r = None"
  shows "\<exists>w. weights_after num (nat epochs) 0 (init_weights num embed_dim) = Some w \<and>
             files_after r = fs(ckpt_path out_dir embed_dim \<mapsto>
                                \<lparr>state_dict = w, ck_embed_dim = embed_dim, ck_table = table,
                                 ck_epochs = epochs, ck_margin = margin\<rparr>) \<and>
             epochs_run r = nat epochs \<and> length (val_log r) = nat epochs"
proof -
  from assms obtain steps w losses where
    "TinyHead_init num embed_dim = Inr (init_weights num embed_dim)"
    and e: "run_epochs num (nat epochs) 0 (init_weights num embed_dim) [] = Some (w, losses)"
    and r: "r = \<lparr>files_after = fs(ckpt_path out_dir embed_dim \<mapsto>
                                \<lparr>state_dict = w, ck_embed_dim = embed_dim, ck_table = table,
                                 ck_epochs = epochs, ck_margin = margin\<rparr>),
                 epochs_run = nat epochs, val_log = losses, raised = None\<rparr>"
    by (auto simp: train_def Let_def TinyHead_init_def split: if_splits sum.splits option.splits)
  from run_epochs_weights[OF e] r show ?thesis by simp
qed

lemma train_raised:
  assumes "train num out_dir train_group valid_group table embed_dim batch_size margin
             epochs lr lm num_workers fs = Some r" and "raised r = Some err"
  shows "files_after r = fs \<and> epochs_run r = 0"
  using assms
  by (auto simp: train_def Let_def split: if_splits sum.splits option.splits)

lemma below_ten: "d < 10 \<Longrightarrow> d \<in> {0, 1, 2, 3, 4, 5, 6, 7, 8, 9::nat}"
  by auto

lemma digit_val_char: "d < 10 \<Longrightarrow> digit_val (digit_char d) = d"
  by (drule below_ten) (auto simp: digit_val_def digit_char_def)

lemma digit_char_not_minus: "d < 10 \<Longrightarrow> digit_char d \<noteq> CHR ''-''"
  by (drule below_ten) (auto simp: digit_char_def)

lemma dec_val_snoc: "dec_val (s @ [c]) = 10 * dec_val s + digit_val c"
  by (simp add: dec_val_def)

lemma dec_val_str_nat: "dec_val (str_nat n) = n"
proof (induction n rule: str_nat.induct)
  case (1 n)
  show ?case
  proof (cases "n < 10")
    case True
    then show ?thesis
      by (subst str_nat.simps) (simp add: dec_val_def digit_val_char)
  next
    case False
    have "dec_val (str_nat n) = 10 * dec_val (str_nat (n div 10)) + digit_val (digit_char (n mod 10))"
      using False by (subst str_nat.simps) (simp add: dec_val_snoc)
    also have "\<dots> = 10 * (n div 10) + n mod 10"
      using 1[OF False] by (simp add: digit_val_char)
    finally show ?thesis by simp
  qed
qed

lemma str_nat_inj: "str_nat m = str_nat n \<Longrightarrow> m = n"
  by (metis dec_val_str_nat)

lemma str_nat_hd: "\<exists>d rest. d < 10 \<and> str_nat n = digit_char d # rest"
proof (induction n rule: str_nat.induct)
  case (1 n)
  show ?case
  proof (cases "n < 10")
    case True
    then show ?thesis by (subst str_nat.simps) auto
  next
    case False
    from 1[OF False] obtain d rest where "d < 10" "str_nat (n div 10) = digit_char d # rest"
      by blast
    then show ?thesis using False by (subst str_nat.simps) auto
  qed
qed

lemma str_int_inj: "str_int i = str_int j \<Longrightarrow> i = j"
proof -
  assume a: "str_int i = str_int j"
  have nm: "CHR ''-'' # s \<noteq> str_nat n" for s n
    using str_nat_hd[of n] digit_char_not_minus by (metis list.inject)
  show ?thesis
  proof (cases "i < 0"; cases "j < 0")
    assume "i < 0" "j < 0"
    with a have "str_nat (nat (- i)) = str_nat (nat (- j))" by (simp add: str_int_def)
    from str_nat_inj[OF this] \<open>i < 0\<close> \<open>j < 0\<close> show ?thesis by simp
  next
    assume "i < 0" "\<not> j < 0"
    with a nm show ?thesis by (simp add: str_int_def)
  next
    assume "\<not> i < 0" "j < 0"
    with a nm[of "str_nat (nat (- j))" "nat i"] show ?thesis by (simp add: str_int_def)
  next
    assume "\<not> i < 0" "\<not> j < 0"
    with a have "str_nat (nat i) = str_nat (nat j)" by (simp add: str_int_def)
    from str_nat_inj[OF this] \<open>\<not> i < 0\<close> \<open>\<not> j < 0\<close> show ?thesis by simp
  qed
qed

lemma path_join_inj: "path_join a b = path_join a c \<Longrightarrow> b = c"
  by (auto simp: path_join_def split: if_splits)

lemma ckpt_path_inj: "ckpt_path out_dir d = ckpt_path out_dir d' \<Longrightarrow> d = d'"
  by (auto simp: ckpt_path_def dest!: path_join_inj str_int_inj)

lemma parse_dims_loop_distinct:
  "distinct dims \<Longrightarrow> distinct (parse_dims_loop parts dims)"
  by (induction parts dims rule: parse_dims_loop.induct) auto

lemma parse_dims_distinct: "distinct (parse_dims parts)"
  by (simp add: parse_dims_def parse_dims_loop_distinct)

lemma jobs_distinct: "distinct (map snd (jobs cfg))"
  using parse_dims_distinct[of "DIM_LIST cfg"]
  by (simp add: jobs_def Let_def comp_def)

lemma jobs_paths_distinct: "distinct (map (\<lambda>job. ckpt_path (OUT_DIR cfg) (snd job)) (jobs cfg))"
proof -
  have "inj (ckpt_path (OUT_DIR cfg))" by (rule injI) (rule ckpt_path_inj)
  then have "distinct (map (ckpt_path (OUT_DIR cfg)) (map snd (jobs cfg)))"
    using jobs_distinct[of cfg] by (simp add: distinct_map inj_on_subset[OF _ subset_UNIV] del: map_map)
  then show ?thesis by (simp add: comp_def)
qed

lemma train_job_completed:
  assumes "train_job cfg job fs = Some r" and "raised r = None"
  shows "\<exists>w. weights_after (numerics_of cfg (fst job)) (nat (DEFAULT_EPOCHS cfg)) 0
                (init_weights (numerics_of cfg (fst job)) (snd job)) = Some w \<and>
             files_after r = fs(ckpt_path (OUT_DIR cfg) (snd job) \<mapsto> saved_by cfg job w)"
  using train_completed[OF assms(1)[unfolded train_job_def] assms(2)]
  by (auto simp: saved_by_def)

lemma run_jobs_completed:
  assumes "run_jobs cfg js fs = Some (fs', None)"
    and "distinct (map (\<lambda>job. ckpt_path (OUT_DIR cfg) (snd job)) js)"
  shows "(\<forall>job \<in> set js.
            \<exists>w. weights_after (numerics_of cfg (fst job)) (nat (DEFAULT_EPOCHS cfg)) 0
                   (init_weights (numerics_of cfg (fst job)) (snd job)) = Some w \<and>
                fs' (ckpt_path (OUT_DIR cfg) (snd job)) = Some (saved_by cfg job w)) \<and>
         (\<forall>p. p \<notin> (\<lambda>job. ckpt_path (OUT_DIR cfg) (snd job)) ` set js \<longrightarrow> fs' p = fs p)"
  using assms
proof (induction js arbitrary: fs)
  case Nil
  then show ?case by simp
next
  case (Cons job rest)
  let ?path = "\<lambda>job. ckpt_path (OUT_DIR cfg) (snd job)"
  from Cons.prems(1) obtain r where
    t: "train_job cfg job fs = Some r" and n: "raised r = None"
    and rest: "run_jobs cfg rest (files_after r) = Some (fs', None)"
    by (auto split: option.splits)
  from train_job_completed[OF t n] obtain w where
    w: "weights_after (numerics_of cfg (fst job)) (nat (DEFAULT_EPOCHS cfg)) 0
                (init_weights (numerics_of cfg (fst job)) (snd job)) = Some w"
    and f: "files_after r = fs(?path job \<mapsto> saved_by cfg job w)"
    by blast
  from Cons.prems(2) have d: "distinct (map ?path rest)" and nin: "?path job \<notin> ?path ` set rest"
    by auto
  from Cons.IH[OF rest d] have
    ih1: "\<forall>job \<in> set rest.
            \<exists>w. weights_after (numerics_of cfg (fst job)) (nat (DEFAULT_EPOCHS cfg)) 0
                   (init_weights (numerics_of cfg (fst job)) (snd job)) = Some w \<and>
                fs' (?path job) = Some (saved_by cfg job w)"
    and ih2: "\<forall>p. p \<notin> ?path ` set rest \<longrightarrow> fs' p = files_after r p"
    by blast+
  from ih2 nin have "fs' (?path job) = Some (saved_by cfg job w)"
    by (simp add: f)
  with w ih1 have 1: "\<forall>job \<in> set (job # rest).
            \<exists>w. weights_after (numerics_of cfg (fst job)) (nat (DEFAULT_EPOCHS cfg)) 0
                   (init_weights (numerics_of cfg (fst job)) (snd job)) = Some w \<and>
                fs' (?path job) = Some (saved_by cfg job w)"
    by auto
  have 2: "\<forall>p. p \<notin> ?path ` set (job # rest) \<longrightarrow> fs' p = fs p"
    using ih2 by (auto simp: f)
  from 1 2 show ?case by blast
qed

text \<open>
  C5. After a run of the script that completes, the dimensions trained are pairwise
  different and so are their checkpoint paths; the file of each dimension holds the
  weights reached by training through all the epochs (the validation losses have no part
  in them), with the dimension, the table, the epoch count and the margin; no other file
  has changed.
\<close>

theorem one_checkpoint_per_dimension:
  assumes "script cfg fs = Some (fs', None)"
  shows "distinct (map snd (jobs cfg)) \<and>
         distinct (map (\<lambda>job. ckpt_path (OUT_DIR cfg) (snd job)) (jobs cfg)) \<and>
         (\<forall>job \<in> set (jobs cfg).
            \<exists>w. weights_after (numerics_of cfg (fst job)) (nat (DEFAULT_EPOCHS cfg)) 0
                   (init_weights (numerics_of cfg (fst job)) (snd job)) = Some w \<and>
                fs' (ckpt_path (OUT_DIR cfg) (snd job))
                  = Some \<lparr>state_dict = w, ck_embed_dim = snd job, ck_table = fst job,
                           ck_epochs = DEFAULT_EPOCHS cfg, ck_margin = DEFAULT_MARGIN cfg\<rparr>) \<and>
         (\<forall>p. p \<notin> (\<lambda>job. ckpt_path (OUT_DIR cfg) (snd job)) ` set (jobs cfg) \<longrightarrow> fs' p = fs p)"
  using run_jobs_completed[OF assms[unfolded script_def] jobs_paths_distinct]
    jobs_distinct[of cfg] jobs_paths_distinct[of cfg]
  unfolding saved_by_def by blast

lemma demo_jobs: "jobs demo_settings = [(''animal_embeddings_2'', 2)]"
  by (simp add: jobs_def demo_settings_def parse_dims_def str_int_def str_nat.simps digit_char_def)

lemma demo_settings_fields:
  "OUT_DIR demo_settings = ''checkpoints''" "DEFAULT_BATCH_SIZE demo_settings = 64"
  "DEFAULT_LENGTH_MULT demo_settings = 25" "DEFAULT_MARGIN demo_settings = 1 / 5"
  "DEFAULT_EPOCHS demo_settings = 3" "DEFAULT_NUM_WORKERS demo_settings = 0"
  "DEFAULT_LR demo_settings = 1 / 1000"
  "fetch_embeddings demo_settings table split = demo_grouped"
  "numerics_of demo_settings table = demo_numerics"
  by (simp_all add: demo_settings_def)

lemma demo_init_weights: "init_weights demo_numerics d = 0"
  by (simp add: demo_numerics_def)

lemma demo_run_epochs: "run_epochs demo_numerics 3 0 0 [] = Some (3, [0, 5, 5])"
  by (simp add: eval_nat_numeral demo_numerics_def)

lemma demo_script:
  "script demo_settings Map.empty
     = Some (Map.empty(ckpt_path ''checkpoints'' 2 \<mapsto>
               \<lparr>state_dict = 3, ck_embed_dim = 2, ck_table = ''animal_embeddings_2'',
                ck_epochs = 3, ck_margin = 1 / 5\<rparr>), None)"
proof -
  have l: "ds_len (TripletDataset_init demo_grouped 25) = 50"
    by (simp add: ds_len_def TripletDataset_init_def eligible_def demo_grouped_def Let_def)
  have t: "train_job demo_settings (''animal_embeddings_2'', 2) Map.empty
     = Some \<lparr>files_after = Map.empty(ckpt_path ''checkpoints'' 2 \<mapsto>
               \<lparr>state_dict = 3, ck_embed_dim = 2, ck_table = ''animal_embeddings_2'',
                ck_epochs = 3, ck_margin = 1 / 5\<rparr>),
             epochs_run = 3, val_log = [0, 5, 5], raised = None\<rparr>"
    unfolding train_job_def train_def
    by (simp add: demo_settings_fields l DataLoader_init_def TinyHead_init_def demo_run_epochs
        demo_init_weights)
       (simp add: demo_grouped_def)
  show ?thesis
    by (simp add: script_def demo_jobs t)
qed

text \<open>The demo run: three epochs, the lowest validation loss after the first, and the
  weights of the third epoch in the one checkpoint of dimension 2.\<close>

theorem one_checkpoint_per_dimension_witness:
  "script demo_settings Map.empty
     = Some (Map.empty(ckpt_path ''checkpoints'' 2 \<mapsto>
               \<lparr>state_dict = 3, ck_embed_dim = 2, ck_table = ''animal_embeddings_2'',
                ck_epochs = 3, ck_margin = 1 / 5\<rparr>), None) \<and>
   weights_after demo_numerics 3 0 0 = Some 3 \<and>
   distinct (map snd (jobs demo_settings))"
proof -
  from one_checkpoint_per_dimension[OF demo_script]
  have "distinct (map snd (jobs demo_settings))" by blast
  moreover have "weights_after demo_numerics 3 0 0 = Some 3"
    by (simp add: eval_nat_numeral demo_numerics_def)
  ultimately show ?thesis using demo_script by blast
qed

text \<open>A training split whose only entity has one vector: the run ends in the sampler's
  exception before any epoch.\<close>

theorem no_eligible_entity_is_fatal_witness:
  "map (\<lambda>(k, v). length (vecs v)) lonely_group = [1] \<and>
   train demo_numerics ''checkpoints'' lonely_group [] ''animal_embeddings_2'' 2 64 (1 / 5) 3 (1 / 1000) 25 0 Map.empty
     = Some \<lparr>files_after = Map.empty, epochs_run = 0, val_log = [], raised = Some EmptySampler\<rparr>"
proof -
  have h: "\<forall>(k, v) \<in> set lonely_group. length (vecs v) < 2"
    by (simp add: lonely_group_def)
  from no_eligible_entity_is_fatal[OF h, of demo_numerics "''checkpoints''" "[]" "''animal_embeddings_2''" 2 64 "1 / 5" 3 "1 / 1000" 25 0 Map.empty]
  obtain err where e: "train demo_numerics ''checkpoints'' lonely_group [] ''animal_embeddings_2'' 2 64 (1 / 5) 3 (1 / 1000) 25 0 Map.empty
     = Some \<lparr>files_after = Map.empty, epochs_run = 0, val_log = [], raised = Some err\<rparr>"
    by blast
  moreover have "train demo_numerics ''checkpoints'' lonely_group [] ''animal_embeddings_2'' 2 64 (1 / 5) 3 (1 / 1000) 25 0 Map.empty
     = Some \<lparr>files_after = Map.empty, epochs_run = 0, val_log = [], raised = Some EmptySampler\<rparr>"
    using e
    by (simp add: train_def lonely_group_def ds_len_def TripletDataset_init_def eligible_def
        DataLoader_init_def Let_def)
  moreover have "map (\<lambda>(k, v). length (vecs v)) lonely_group = [1]"
    by (simp add: lonely_group_def)
  ultimately show ?thesis by blast
qed

end
